theory Spec2Isabelle
  imports Complex_Main "HOL-Library.Word"
begin

section \<open>Values of the host language\<close>

text \<open>
  The program is \<^verbatim>\<open>src/src/find.ts\<close> (the version with \<^verbatim>\<open>init\<close> and
  \<^verbatim>\<open>findImpl\<close>). Its numbers are IEEE doubles. A finite double is idealised
  as a real number, so rounding is not modelled; \<^verbatim>\<open>NaN\<close> and the two infinities are
  values of their own, because the validation of \<^verbatim>\<open>findImpl\<close> tests for them.
\<close>

datatype number = NaN | NegInfinity | Finite real | Infinity

fun isNaN :: "number \<Rightarrow> bool" where
  "isNaN NaN = True"
| "isNaN _ = False"

text \<open>The relational operators: every comparison with \<^verbatim>\<open>NaN\<close> is false.\<close>

fun num_lt :: "number \<Rightarrow> number \<Rightarrow> bool" where
  "num_lt NaN _ = False"
| "num_lt _ NaN = False"
| "num_lt Infinity _ = False"
| "num_lt _ NegInfinity = False"
| "num_lt NegInfinity _ = True"
| "num_lt (Finite a) (Finite b) = (a < b)"
| "num_lt (Finite a) Infinity = True"

definition num_gt :: "number \<Rightarrow> number \<Rightarrow> bool" where
  "num_gt a b = num_lt b a"

definition num_ge :: "number \<Rightarrow> number \<Rightarrow> bool" where
  "num_ge a b = (\<not> isNaN a \<and> \<not> isNaN b \<and> \<not> num_lt a b)"

definition num_le :: "number \<Rightarrow> number \<Rightarrow> bool" where
  "num_le a b = (\<not> isNaN a \<and> \<not> isNaN b \<and> \<not> num_lt b a)"

fun num_add :: "number \<Rightarrow> number \<Rightarrow> number" where
  "num_add NaN _ = NaN"
| "num_add _ NaN = NaN"
| "num_add Infinity NegInfinity = NaN"
| "num_add NegInfinity Infinity = NaN"
| "num_add Infinity _ = Infinity"
| "num_add _ Infinity = Infinity"
| "num_add NegInfinity _ = NegInfinity"
| "num_add _ NegInfinity = NegInfinity"
| "num_add (Finite a) (Finite b) = Finite (a + b)"

fun num_neg :: "number \<Rightarrow> number" where
  "num_neg NaN = NaN"
| "num_neg NegInfinity = Infinity"
| "num_neg (Finite a) = Finite (- a)"
| "num_neg Infinity = NegInfinity"

definition num_sub :: "number \<Rightarrow> number \<Rightarrow> number" where
  "num_sub a b = num_add a (num_neg b)"

text \<open>
  A value as \<^verbatim>\<open>response.json()\<close> produces it, and \<^verbatim>\<open>undefined\<close>, which a
  read of a missing property gives. An object is the list of its own properties; a
  read takes the first entry for a name.
\<close>

datatype jsval =
    Undefined
  | Null
  | Bool bool
  | Num number
  | Str string
  | Arr "jsval list"
  | Obj "(string \<times> jsval) list"

text \<open>Truthiness, as \<^verbatim>\<open>!x\<close> and \<^verbatim>\<open>if (x)\<close> read it.\<close>

fun truthy :: "jsval \<Rightarrow> bool" where
  "truthy Undefined = False"
| "truthy Null = False"
| "truthy (Bool b) = b"
| "truthy (Num n) = (\<not> isNaN n \<and> n \<noteq> Finite 0)"
| "truthy (Str s) = (s \<noteq> [])"
| "truthy (Arr xs) = True"
| "truthy (Obj kvs) = True"

fun js_typeof :: "jsval \<Rightarrow> string" where
  "js_typeof Undefined = ''undefined''"
| "js_typeof Null = ''object''"
| "js_typeof (Bool b) = ''boolean''"
| "js_typeof (Num n) = ''number''"
| "js_typeof (Str s) = ''string''"
| "js_typeof (Arr xs) = ''object''"
| "js_typeof (Obj kvs) = ''object''"

datatype error =
    InvalidLatitude number
  | InvalidLongitude number
  | UnexpectedDataType
  | TypeError
  | Propagated string

text \<open>
  \<^verbatim>\<open>x.name\<close> for the property names \<^verbatim>\<open>findImpl\<close> reads: \<^verbatim>\<open>lookup\<close>,
  \<^verbatim>\<open>timezones\<close>, \<^verbatim>\<open>a\<close>, \<^verbatim>\<open>b\<close>, \<^verbatim>\<open>c\<close>, \<^verbatim>\<open>d\<close>, \<^verbatim>\<open>pos\<close>,
  \<^verbatim>\<open>len\<close>, \<^verbatim>\<open>length\<close> and \<^verbatim>\<open>tzid\<close>. None of them is an array index
  or a property of a built-in prototype, so a string and an array answer only to
  \<^verbatim>\<open>length\<close> (a string counted in characters), and a boolean or a number to
  nothing. \<open>js_prop\<close> is the read on a
  value that is neither \<^verbatim>\<open>undefined\<close> nor \<^verbatim>\<open>null\<close>; \<open>js_get\<close> adds the
  \<^verbatim>\<open>TypeError\<close> the host raises on those two.
\<close>

fun js_prop :: "jsval \<Rightarrow> string \<Rightarrow> jsval" where
  "js_prop (Obj kvs) k = (case map_of kvs k of None \<Rightarrow> Undefined | Some v \<Rightarrow> v)"
| "js_prop (Arr xs) k = (if k = ''length'' then Num (Finite (real (length xs))) else Undefined)"
| "js_prop (Str s) k = (if k = ''length'' then Num (Finite (real (length s))) else Undefined)"
| "js_prop _ k = Undefined"

definition js_get :: "jsval \<Rightarrow> string \<Rightarrow> error + jsval" where
  "js_get v k = (if v = Undefined \<or> v = Null then Inl TypeError else Inr (js_prop v k))"

fun andThen :: "error + 'a \<Rightarrow> ('a \<Rightarrow> error + 'b) \<Rightarrow> error + 'b" where
  "andThen (Inl e) f = Inl e"
| "andThen (Inr x) f = f x"

section \<open>Collaborators\<close>

text \<open>
  What \<^verbatim>\<open>find.ts\<close> imports or calls and does not define. \<open>fetchJson\<close> is
  \<^verbatim>\<open>fetch(url).then(r => r.json())\<close> and \<open>fetchRange\<close> is \<^verbatim>\<open>fetch\<close> with a
  \<^verbatim>\<open>Range\<close> header followed by \<^verbatim>\<open>arrayBuffer()\<close>; \<open>decode\<close> is geobuf's
  decoder applied to the \<^verbatim>\<open>Pbf\<close> of the bytes and \<open>inside\<close> is turf's
  point-in-polygon test, taken as total on decoded features. A failure of a collaborator is a message (\<open>Inl\<close>), which
  \<^verbatim>\<open>findImpl\<close> lets through as \<open>Propagated\<close>.
  \<open>oceanZones\<close> is the table of \<^verbatim>\<open>./oceanUtils\<close>, a file that is not among the
  sources. The last three fields are the host's conversions where a string, an
  array or an object takes part (ToPrimitive, StringToNumber, a computed key): they
  are left open, \<open>None\<close> standing for the \<^verbatim>\<open>TypeError\<close> a conversion can raise.
\<close>

record zone =
  tzid :: string
  longitudeLow :: real
  longitudeHigh :: real

record feature =
  geometry :: jsval
  properties :: jsval

datatype geojson =
    FeatureCollection "feature list"
  | Feature feature
  | Geometry jsval

type_synonym ArrayBuffer = "8 word list"

type_synonym point = "number \<times> number"

record env =
  fetchJson :: "string \<Rightarrow> string + jsval"
  fetchRange :: "string \<Rightarrow> jsval \<Rightarrow> jsval \<Rightarrow> string + ArrayBuffer"
  decode :: "ArrayBuffer \<Rightarrow> string + geojson"
  inside :: "point \<Rightarrow> feature \<Rightarrow> bool"
  oceanZones :: "zone list"
  hostToNumber :: "jsval \<Rightarrow> number option"
  hostAdd :: "jsval \<Rightarrow> jsval \<Rightarrow> jsval option"
  hostGet :: "jsval \<Rightarrow> jsval \<Rightarrow> jsval option"

text \<open>
  Modelled from the spec: \<^verbatim>\<open>getTimezoneAtSea\<close> of \<^verbatim>\<open>./oceanUtils\<close>, which is
  imported by \<^verbatim>\<open>find.ts\<close> and is not among the sources. Section 4.4 of the
  specification: given the longitude, it returns the id of every Ocean Zone band
  whose range from \<open>longitudeLow\<close> to \<open>longitudeHigh\<close> contains it, in table order.
\<close>

definition getTimezoneAtSea :: "zone list \<Rightarrow> number \<Rightarrow> jsval list" where
  "getTimezoneAtSea zones lon =
     map (\<lambda>z. Str (tzid z))
       (filter (\<lambda>z. num_le (Finite (longitudeLow z)) lon \<and> num_le lon (Finite (longitudeHigh z))) zones)"

section \<open>Operators on values\<close>

text \<open>\<^verbatim>\<open>ToNumber\<close>, as the operators \<^verbatim>\<open>>=\<close>, \<^verbatim>\<open>>\<close> and \<^verbatim>\<open>-\<close> apply it.\<close>

fun ToNumber :: "env \<Rightarrow> jsval \<Rightarrow> error + number" where
  "ToNumber E Undefined = Inr NaN"
| "ToNumber E Null = Inr (Finite 0)"
| "ToNumber E (Bool b) = Inr (Finite (if b then 1 else 0))"
| "ToNumber E (Num n) = Inr n"
| "ToNumber E v = (case hostToNumber E v of None \<Rightarrow> Inl TypeError | Some n \<Rightarrow> Inr n)"

fun is_numeric :: "jsval \<Rightarrow> bool" where
  "is_numeric (Str s) = False"
| "is_numeric (Arr xs) = False"
| "is_numeric (Obj kvs) = False"
| "is_numeric _ = True"

text \<open>\<^verbatim>\<open>a + b\<close>: numeric addition unless a string, an array or an object takes part.\<close>

definition js_add :: "env \<Rightarrow> jsval \<Rightarrow> jsval \<Rightarrow> error + jsval" where
  "js_add E a b =
     (if is_numeric a \<and> is_numeric b
      then andThen (ToNumber E a) (\<lambda>x. andThen (ToNumber E b) (\<lambda>y. Inr (Num (num_add x y))))
      else (case hostAdd E a b of None \<Rightarrow> Inl TypeError | Some v \<Rightarrow> Inr v))"

definition js_sub :: "env \<Rightarrow> jsval \<Rightarrow> jsval \<Rightarrow> error + jsval" where
  "js_sub E a b =
     andThen (ToNumber E a) (\<lambda>x. andThen (ToNumber E b) (\<lambda>y. Inr (Num (num_sub x y))))"

text \<open>
  \<^verbatim>\<open>timezones[idx]\<close>. An array read at a number gives the element when the number
  is an index of the array and \<^verbatim>\<open>undefined\<close> otherwise.
\<close>

fun array_at :: "jsval list \<Rightarrow> number \<Rightarrow> jsval" where
  "array_at xs (Finite r) =
     (if 0 \<le> r \<and> r = of_int \<lfloor>r\<rfloor> \<and> nat \<lfloor>r\<rfloor> < length xs then xs ! nat \<lfloor>r\<rfloor> else Undefined)"
| "array_at xs _ = Undefined"

fun js_index :: "env \<Rightarrow> jsval \<Rightarrow> jsval \<Rightarrow> error + jsval" where
  "js_index E Undefined idx = Inl TypeError"
| "js_index E Null idx = Inl TypeError"
| "js_index E (Arr xs) (Num n) = Inr (array_at xs n)"
| "js_index E v idx = (case hostGet E v idx of None \<Rightarrow> Inl TypeError | Some x \<Rightarrow> Inr x)"

section \<open>The bound instance: sources, memo and providers\<close>

text \<open>
  \<^verbatim>\<open>init\<close> takes each source as a URL or as a function. The function form of
  \<^verbatim>\<open>tzDataSource\<close> is modelled by the outcome of calling it. The state of an
  instance is the variable \<^verbatim>\<open>tzDataPromise\<close> of the closure; \<open>calls\<close> records
  every request that leaves the instance, in order. Calls of \<^verbatim>\<open>find\<close> are
  run one after the other; their interleaving is not modelled.
\<close>

datatype GeoDataSource = GeoUrl string | GeoFn "jsval \<Rightarrow> jsval \<Rightarrow> string + ArrayBuffer"

datatype TzDataSource = TzUrl string | TzFn "string + jsval"

datatype event =
    IndexFetch string
  | IndexCall
  | RangeFetch string jsval jsval
  | RangeCall jsval jsval

record state =
  tzDataPromise :: "(string + jsval) option"
  calls :: "event list"

definition init_geoData :: "env \<Rightarrow> GeoDataSource \<Rightarrow> jsval \<Rightarrow> jsval \<Rightarrow> state \<Rightarrow> (string + ArrayBuffer) \<times> state" where
  "init_geoData E geoDataSource start end' s =
     (case geoDataSource of
        GeoUrl url \<Rightarrow> (fetchRange E url start end', s\<lparr>calls := calls s @ [RangeFetch url start end']\<rparr>)
      | GeoFn f \<Rightarrow> (f start end', s\<lparr>calls := calls s @ [RangeCall start end']\<rparr>))"

definition init_tzData :: "env \<Rightarrow> TzDataSource \<Rightarrow> state \<Rightarrow> (string + jsval) \<times> state" where
  "init_tzData E tzDataSource s =
     (case tzDataSource of
        TzUrl url \<Rightarrow>
          (case tzDataPromise s of
             Some p \<Rightarrow> (p, s)
           | None \<Rightarrow>
               (let promise = fetchJson E url
                in (promise, s\<lparr>tzDataPromise := Some promise, calls := calls s @ [IndexFetch url]\<rparr>)))
      | TzFn f \<Rightarrow> (f, s\<lparr>calls := calls s @ [IndexCall]\<rparr>))"

section \<open>The lookup: \<^verbatim>\<open>findImpl\<close>\<close>

subsection \<open>The quadrant step\<close>

record quadData =
  top' :: real
  bottom :: real
  left :: real
  right :: real
  midLat :: real
  midLon :: real

text \<open>The first half of the loop body: ``calculate next quadtree position''.\<close>

definition nextQuad :: "number \<Rightarrow> number \<Rightarrow> quadData \<Rightarrow> string \<times> quadData" where
  "nextQuad lat lon q =
     (if num_ge lat (Finite (midLat q)) \<and> num_ge lon (Finite (midLon q))
      then (''a'', q\<lparr>bottom := midLat q, left := midLon q\<rparr>)
      else if num_ge lat (Finite (midLat q)) \<and> num_lt lon (Finite (midLon q))
      then (''b'', q\<lparr>bottom := midLat q, right := midLon q\<rparr>)
      else if num_lt lat (Finite (midLat q)) \<and> num_lt lon (Finite (midLon q))
      then (''c'', q\<lparr>top' := midLat q, right := midLon q\<rparr>)
      else (''d'', q\<lparr>top' := midLat q, left := midLon q\<rparr>))"

text \<open>The end of the loop body: ``calculate next quadtree depth data''.\<close>

definition nextDepth :: "quadData \<Rightarrow> quadData" where
  "nextDepth q = q\<lparr>midLat := (top' q + bottom q) / 2, midLon := (left q + right q) / 2\<rparr>"

subsection \<open>The terminal branches\<close>

text \<open>\<^verbatim>\<open>curTzData.pos >= 0 && curTzData.len\<close> and \<^verbatim>\<open>curTzData.length > 0\<close>.\<close>

definition hasRange :: "env \<Rightarrow> jsval \<Rightarrow> error + bool" where
  "hasRange E curTzData =
     andThen (ToNumber E (js_prop curTzData ''pos''))
       (\<lambda>p. Inr (num_ge p (Finite 0) \<and> truthy (js_prop curTzData ''len'')))"

definition hasLength :: "env \<Rightarrow> jsval \<Rightarrow> error + bool" where
  "hasLength E curTzData =
     andThen (ToNumber E (js_prop curTzData ''length'')) (\<lambda>n. Inr (num_gt n (Finite 0)))"

text \<open>The loop over \<^verbatim>\<open>geoJson.features\<close>, pushing onto \<^verbatim>\<open>timezonesContainingPoint\<close>.\<close>

fun collect :: "env \<Rightarrow> point \<Rightarrow> feature list \<Rightarrow> jsval list \<Rightarrow> jsval list" where
  "collect E pt [] acc = acc"
| "collect E pt (f # fs) acc =
     collect E pt fs
       (if inside E pt f
        then (if truthy (properties f) then acc @ [js_prop (properties f) ''tzid''] else acc)
        else acc)"

definition timezonesContainingPoint :: "env \<Rightarrow> point \<Rightarrow> geojson \<Rightarrow> jsval list" where
  "timezonesContainingPoint E pt geoJson =
     (case geoJson of
        FeatureCollection features \<Rightarrow> collect E pt features []
      | Feature f \<Rightarrow>
          (if inside E pt f \<and> truthy (properties f) then [js_prop (properties f) ''tzid''] else [])
      | Geometry g \<Rightarrow> [])"

text \<open>The branch ``get exact boundaries'': one range request, decoded and tested.\<close>

definition exactBoundaries ::
  "env \<Rightarrow> (jsval \<Rightarrow> jsval \<Rightarrow> state \<Rightarrow> (string + ArrayBuffer) \<times> state) \<Rightarrow> point \<Rightarrow> number \<Rightarrow> jsval \<Rightarrow> state
     \<Rightarrow> (error + jsval list) \<times> state" where
  "exactBoundaries E geoData pt originalLon curTzData s =
     (case andThen (js_add E (js_prop curTzData ''pos'') (js_prop curTzData ''len''))
             (\<lambda>sum. js_sub E sum (Num (Finite 1))) of
        Inl e \<Rightarrow> (Inl e, s)
      | Inr end' \<Rightarrow>
          (case geoData (js_prop curTzData ''pos'') end' s of
             (Inl msg, s') \<Rightarrow> (Inl (Propagated msg), s')
           | (Inr bufSlice, s') \<Rightarrow>
               (case decode E bufSlice of
                  Inl msg \<Rightarrow> (Inl (Propagated msg), s')
                | Inr geoJson \<Rightarrow>
                    (let tzs = timezonesContainingPoint E pt geoJson
                     in (Inr (if length tzs > 0 then tzs else getTimezoneAtSea (oceanZones E) originalLon), s')))))"

text \<open>The branch ``exact match found'': \<^verbatim>\<open>curTzData.map((idx) => timezones[idx])\<close>.\<close>

fun mapIdx :: "env \<Rightarrow> jsval \<Rightarrow> jsval list \<Rightarrow> error + jsval list" where
  "mapIdx E timezones [] = Inr []"
| "mapIdx E timezones (idx # rest) =
     andThen (js_index E timezones idx) (\<lambda>v. andThen (mapIdx E timezones rest) (\<lambda>vs. Inr (v # vs)))"

definition exactMatch :: "env \<Rightarrow> jsval \<Rightarrow> jsval \<Rightarrow> error + jsval list" where
  "exactMatch E tzDataResponse curTzData =
     andThen (js_get tzDataResponse ''timezones'')
       (\<lambda>timezones. case curTzData of Arr idxs \<Rightarrow> mapIdx E timezones idxs | _ \<Rightarrow> Inl TypeError)"

text \<open>
  ``analyze result of current depth'': the chain of tests on the child just read.
  \<open>None\<close> is falling through the chain, to the next round of the loop.
\<close>

definition analyze ::
  "env \<Rightarrow> (jsval \<Rightarrow> jsval \<Rightarrow> state \<Rightarrow> (string + ArrayBuffer) \<times> state) \<Rightarrow> jsval \<Rightarrow> point \<Rightarrow> number \<Rightarrow> jsval \<Rightarrow> state
     \<Rightarrow> ((error + jsval list) \<times> state) option" where
  "analyze E geoData tzDataResponse pt originalLon curTzData s =
     (if \<not> truthy curTzData then Some (Inr (getTimezoneAtSea (oceanZones E) originalLon), s)
      else case hasRange E curTzData of
        Inl e \<Rightarrow> Some (Inl e, s)
      | Inr True \<Rightarrow> Some (exactBoundaries E geoData pt originalLon curTzData s)
      | Inr False \<Rightarrow>
          (case hasLength E curTzData of
             Inl e \<Rightarrow> Some (Inl e, s)
           | Inr True \<Rightarrow> Some (exactMatch E tzDataResponse curTzData, s)
           | Inr False \<Rightarrow>
               (if js_typeof curTzData \<noteq> ''object'' then Some (Inl UnexpectedDataType, s) else None)))"

subsection \<open>The descent\<close>

lemma map_of_size:
  "map_of kvs k = Some v \<Longrightarrow> size v < Suc (size_list (size_prod (\<lambda>x. 0) size) kvs)"
  by (induction kvs) (auto split: if_splits)

lemma js_get_size:
  "js_get cur k = Inr c \<Longrightarrow> truthy c \<Longrightarrow> js_typeof c = ''object'' \<Longrightarrow> size c < size cur"
  by (cases cur) (auto simp: js_get_def dest: map_of_size split: option.splits if_splits)

lemma analyze_None:
  "analyze E g r pt ol c s = None \<Longrightarrow> truthy c \<and> js_typeof c = ''object''"
  by (auto simp: analyze_def split: if_splits sum.splits bool.splits)

text \<open>
  The \<^verbatim>\<open>while (true)\<close> loop. Each round reads one child of the current node and
  either returns or goes on with that child, which is a proper part of the current
  node: the index is a finite document, and that is what ends the loop. (The
  variable \<^verbatim>\<open>quadPos\<close> of the source is written and never read; it is left out.)
\<close>

function descend ::
  "env \<Rightarrow> (jsval \<Rightarrow> jsval \<Rightarrow> state \<Rightarrow> (string + ArrayBuffer) \<times> state) \<Rightarrow> jsval \<Rightarrow> point \<Rightarrow> number
     \<Rightarrow> number \<Rightarrow> number \<Rightarrow> jsval \<Rightarrow> quadData \<Rightarrow> state \<Rightarrow> (error + jsval list) \<times> state" where
  "descend E geoData tzDataResponse pt originalLon lat lon curTzData quadData s =
     (case nextQuad lat lon quadData of
        (nextQuad', quadData') \<Rightarrow>
          (case js_get curTzData nextQuad' of
             Inl e \<Rightarrow> (Inl e, s)
           | Inr child \<Rightarrow>
               (case analyze E geoData tzDataResponse pt originalLon child s of
                  Some r \<Rightarrow> r
                | None \<Rightarrow>
                    descend E geoData tzDataResponse pt originalLon lat lon child (nextDepth quadData') s)))"
  by pat_completeness auto
termination
  apply (relation "measure (\<lambda>(E, geoData, tzDataResponse, pt, originalLon, lat, lon, curTzData, quadData, s). size curTzData)")
   apply simp
  apply (auto dest!: analyze_None intro: js_get_size)
  done

declare descend.simps [simp del]

subsection \<open>Validation, the pole, the edges, and the call of the loop\<close>

text \<open>``fix edges of the world''.\<close>

definition fixLat :: "number \<Rightarrow> number" where
  "fixLat lat =
     (if num_ge lat (Finite 89.9999) then Finite 89.9999
      else if num_le lat (Finite (- 89.9999)) then Finite (- 89.9999)
      else lat)"

definition fixLon :: "number \<Rightarrow> number" where
  "fixLon lon =
     (if num_ge lon (Finite 179.9999) then Finite 179.9999
      else if num_le lon (Finite (- 179.9999)) then Finite (- 179.9999)
      else lon)"

definition quadData0 :: quadData where
  "quadData0 =
     \<lparr>top' = 89.9999, bottom = - 89.9999, left = - 179.9999, right = 179.9999, midLat = 0, midLon = 0\<rparr>"

definition findImpl ::
  "env \<Rightarrow> (jsval \<Rightarrow> jsval \<Rightarrow> state \<Rightarrow> (string + ArrayBuffer) \<times> state) \<Rightarrow> (state \<Rightarrow> (string + jsval) \<times> state)
     \<Rightarrow> number \<Rightarrow> number \<Rightarrow> state \<Rightarrow> (error + jsval list) \<times> state" where
  "findImpl E geoData tzData lat lon s =
     (let originalLon = lon in
      if isNaN lat \<or> num_gt lat (Finite 90) \<or> num_lt lat (Finite (- 90))
      then (Inl (InvalidLatitude lat), s)
      else if isNaN lon \<or> num_gt lon (Finite 180) \<or> num_lt lon (Finite (- 180))
      then (Inl (InvalidLongitude lon), s)
      else if lat = Finite 90
      then (Inr (map (\<lambda>zone. Str (tzid zone)) (oceanZones E)), s)
      else
        (let lat = fixLat lat; lon = fixLon lon; pt = (lon, lat)
         in case tzData s of
              (Inl msg, s') \<Rightarrow> (Inl (Propagated msg), s')
            | (Inr tzDataResponse, s') \<Rightarrow>
                (case js_get tzDataResponse ''lookup'' of
                   Inl e \<Rightarrow> (Inl e, s')
                 | Inr curTzData \<Rightarrow>
                     descend E geoData tzDataResponse pt originalLon lat lon curTzData quadData0 s')))"

text \<open>
  \<^verbatim>\<open>init\<close>: the bound instance, and the state it starts in
  (\<^verbatim>\<open>let tzDataPromise = null\<close>).
\<close>

record boundInstance =
  find' :: "number \<Rightarrow> number \<Rightarrow> state \<Rightarrow> (error + jsval list) \<times> state"

definition init :: "env \<Rightarrow> GeoDataSource \<Rightarrow> TzDataSource \<Rightarrow> boundInstance \<times> state" where
  "init E geoDataSource tzDataSource =
     (\<lparr>find' = (\<lambda>lat lon. findImpl E (init_geoData E geoDataSource) (init_tzData E tzDataSource) lat lon)\<rparr>,
      \<lparr>tzDataPromise = None, calls = []\<rparr>)"

text \<open>
  The exported \<^verbatim>\<open>find\<close>, which is \<^verbatim>\<open>init().find(lat, lon)\<close>: a fresh instance
  on the default sources for every call.
\<close>

definition find'' :: "env \<Rightarrow> number \<Rightarrow> number \<Rightarrow> (error + jsval list) \<times> state" where
  "find'' E lat lon =
     (case init E
        (GeoUrl ''https://cdn.jsdelivr.net/npm/geo-tz@latest/data/timezones-1970.geojson.geo.dat'')
        (TzUrl ''https://cdn.jsdelivr.net/npm/geo-tz@latest/data/timezones-1970.geojson.index.json'') of
        (inst, s) \<Rightarrow> find' inst lat lon s)"

text \<open>A run of calls of \<^verbatim>\<open>find\<close> on one instance, one after the other.\<close>

fun finds :: "boundInstance \<Rightarrow> (number \<times> number) list \<Rightarrow> state \<Rightarrow> (error + jsval list) list \<times> state" where
  "finds inst [] s = ([], s)"
| "finds inst ((lat, lon) # rest) s =
     (case find' inst lat lon s of
        (r, s') \<Rightarrow> (case finds inst rest s' of (rs, s'') \<Rightarrow> (r # rs, s'')))"

section \<open>Notions the properties are stated with\<close>

text \<open>A coordinate in its declared domain: a finite number within the bounds.\<close>

definition inDomain :: "real \<Rightarrow> number \<Rightarrow> bool" where
  "inDomain bound x = (case x of Finite r \<Rightarrow> - bound \<le> r \<and> r \<le> bound | _ \<Rightarrow> False)"

definition isInvalidCoordinate :: "error + jsval list \<Rightarrow> bool" where
  "isInvalidCoordinate r =
     (case r of Inl (InvalidLatitude x) \<Rightarrow> True | Inl (InvalidLongitude x) \<Rightarrow> True | _ \<Rightarrow> False)"

text \<open>The errors that can arise after validation.\<close>

definition raisedInside :: "error \<Rightarrow> bool" where
  "raisedInside e = (case e of InvalidLatitude x \<Rightarrow> False | InvalidLongitude x \<Rightarrow> False | _ \<Rightarrow> True)"

text \<open>
  A child on which the chain of tests falls through, so that the loop goes on with
  it, and the children the loop reads from a node and a box on, in order.
\<close>

definition continues :: "env \<Rightarrow> jsval \<Rightarrow> bool" where
  "continues E child =
     (truthy child \<and> hasRange E child = Inr False \<and> hasLength E child = Inr False
      \<and> js_typeof child = ''object'')"

function visited :: "env \<Rightarrow> number \<Rightarrow> number \<Rightarrow> jsval \<Rightarrow> quadData \<Rightarrow> jsval list" where
  "visited E lat lon curTzData quadData =
     (case nextQuad lat lon quadData of
        (nextQuad', quadData') \<Rightarrow>
          (case js_get curTzData nextQuad' of
             Inl e \<Rightarrow> []
           | Inr child \<Rightarrow>
               child # (if continues E child then visited E lat lon child (nextDepth quadData') else [])))"
  by pat_completeness auto
termination
  apply (relation "measure (\<lambda>(E, lat, lon, curTzData, quadData). size curTzData)")
   apply simp
  apply (auto simp: continues_def intro: js_get_size)
  done

declare visited.simps [simp del]

text \<open>The requests for geometry and the requests for the index among the calls of an instance.\<close>

fun rangeRequests :: "event list \<Rightarrow> (jsval \<times> jsval) list" where
  "rangeRequests [] = []"
| "rangeRequests (RangeFetch url start end' # es) = (start, end') # rangeRequests es"
| "rangeRequests (RangeCall start end' # es) = (start, end') # rangeRequests es"
| "rangeRequests (e # es) = rangeRequests es"

fun indexRequests :: "event list \<Rightarrow> nat" where
  "indexRequests [] = 0"
| "indexRequests (IndexFetch url # es) = Suc (indexRequests es)"
| "indexRequests (IndexCall # es) = Suc (indexRequests es)"
| "indexRequests (e # es) = indexRequests es"

text \<open>
  The lookup of a point that meets no special case: the index is asked for, its
  \<^verbatim>\<open>lookup\<close> is read, and the loop runs from the outer box with the point
  \<open>(lat, lon)\<close>, keeping \<open>originalLon\<close> for the fallback.
\<close>

definition descendFrom ::
  "env \<Rightarrow> (jsval \<Rightarrow> jsval \<Rightarrow> state \<Rightarrow> (string + ArrayBuffer) \<times> state) \<Rightarrow> (state \<Rightarrow> (string + jsval) \<times> state)
     \<Rightarrow> number \<Rightarrow> number \<Rightarrow> number \<Rightarrow> state \<Rightarrow> (error + jsval list) \<times> state" where
  "descendFrom E geoData tzData lat lon originalLon s =
     (case tzData s of
        (Inl msg, s') \<Rightarrow> (Inl (Propagated msg), s')
      | (Inr tzDataResponse, s') \<Rightarrow>
          (case js_get tzDataResponse ''lookup'' of
             Inl e \<Rightarrow> (Inl e, s')
           | Inr curTzData \<Rightarrow> descend E geoData tzDataResponse (lon, lat) originalLon lat lon curTzData quadData0 s'))"

text \<open>
  A geometry leaf as the data model of the specification has it: \<open>pos\<close> a byte
  offset that is not negative and \<open>len\<close> a positive byte length.
\<close>

definition isGeometryLeaf :: "jsval \<Rightarrow> real \<Rightarrow> real \<Rightarrow> bool" where
  "isGeometryLeaf node p l =
     (js_prop node ''pos'' = Num (Finite p) \<and> js_prop node ''len'' = Num (Finite l) \<and> 0 \<le> p \<and> 0 < l)"

text \<open>The features of a decoded blob, in decode order.\<close>

definition featuresOf :: "geojson \<Rightarrow> feature list" where
  "featuresOf geoJson =
     (case geoJson of FeatureCollection features \<Rightarrow> features | Feature f \<Rightarrow> [f] | Geometry g \<Rightarrow> [])"



text \<open>
  The four kinds of node of the data model of the specification, and what is none
  of them. An inner node is a mapping; a geometry leaf has a numeric \<open>pos\<close> that is
  not negative and a positive numeric \<open>len\<close>; an id list is a non-empty list of
  indices; an empty node is an absent child (a \<^verbatim>\<open>null\<close> is counted as absent).
\<close>

datatype nodeKind = Inner | GeometryLeaf | IdListLeaf | Empty | Malformed

fun isIndex :: "jsval \<Rightarrow> bool" where
  "isIndex (Num (Finite r)) = (0 \<le> r \<and> r = of_int \<lfloor>r\<rfloor>)"
| "isIndex _ = False"

fun specKind :: "jsval \<Rightarrow> nodeKind" where
  "specKind Undefined = Empty"
| "specKind Null = Empty"
| "specKind (Obj kvs) =
     (case (js_prop (Obj kvs) ''pos'', js_prop (Obj kvs) ''len'') of
        (Num (Finite p), Num (Finite l)) \<Rightarrow> (if 0 \<le> p \<and> 0 < l then GeometryLeaf else Inner)
      | _ \<Rightarrow> Inner)"
| "specKind (Arr xs) = (if xs \<noteq> [] \<and> list_all isIndex xs then IdListLeaf else Malformed)"
| "specKind _ = Malformed"

text \<open>An index of any depth: \<open>n\<close> inner nodes above an inner node with one id list.\<close>

fun chain :: "nat \<Rightarrow> jsval" where
  "chain 0 = Obj [(''a'', Arr [Num (Finite 0)])]"
| "chain (Suc n) = Obj [(''a'', chain n)]"

definition deepIndex :: "nat \<Rightarrow> jsval" where
  "deepIndex n = Obj [(''lookup'', chain n), (''timezones'', Arr [Str ''Etc/UTC''])]"

text \<open>A box whose top right corner is the point \<open>(la, lo)\<close>, with the midpoints not beyond it.\<close>

definition cornered :: "real \<Rightarrow> real \<Rightarrow> quadData \<Rightarrow> bool" where
  "cornered la lo q = (midLat q \<le> la \<and> midLon q \<le> lo \<and> top' q = la \<and> right q = lo)"

text \<open>
  The memo of an instance agrees with its calls: no request for the index while the
  memo is empty, one once it is set. And the calls of \<^verbatim>\<open>find\<close> that get past
  validation and the pole.
\<close>

definition memoized :: "state \<Rightarrow> bool" where
  "memoized s = (indexRequests (calls s) = (case tzDataPromise s of None \<Rightarrow> 0 | Some p \<Rightarrow> 1))"

definition reachesIndex :: "number \<times> number \<Rightarrow> bool" where
  "reachesIndex p = (case p of (lat, lon) \<Rightarrow> inDomain 90 lat \<and> lat \<noteq> Finite 90 \<and> inDomain 180 lon)"






lemma size_snd_member [termination_simp]:
  "(k, v) \<in> set kvs \<Longrightarrow> size v < Suc (size_list (size_prod (\<lambda>x. 0) size) kvs)"
  by (induction kvs) auto







text \<open>A node on which the last test of the chain raises: \<^verbatim>\<open>true\<close> or a number that is truthy.\<close>

definition unexpectedNode :: "jsval \<Rightarrow> bool" where
  "unexpectedNode v = (case v of Bool b \<Rightarrow> b | Num n \<Rightarrow> truthy (Num n) | _ \<Rightarrow> False)"

section \<open>A small world to run the model in\<close>

definition exampleZones :: "zone list" where
  "exampleZones =
     [\<lparr>tzid = ''Etc/GMT-12'', longitudeLow = 172.5, longitudeHigh = 180\<rparr>,
      \<lparr>tzid = ''Etc/GMT-9'', longitudeLow = 127.5, longitudeHigh = 142.5\<rparr>,
      \<lparr>tzid = ''Etc/GMT-1'', longitudeLow = 7.5, longitudeHigh = 22.5\<rparr>,
      \<lparr>tzid = ''Etc/GMT'', longitudeLow = - 7.5, longitudeHigh = 7.5\<rparr>,
      \<lparr>tzid = ''Etc/GMT+12'', longitudeLow = - 180, longitudeHigh = - 172.5\<rparr>]"

definition exampleLookup :: jsval where
  "exampleLookup =
     Obj [(''a'', Obj [(''c'', Arr [Num (Finite 0)]),
                       (''d'', Obj [(''pos'', Num (Finite 100)), (''len'', Num (Finite 50))])]),
          (''b'', Obj [(''pos'', Num (Finite 0)), (''len'', Num (Finite 100))]),
          (''c'', Arr [Num (Finite 1), Num (Finite 2)])]"

definition exampleIndex :: jsval where
  "exampleIndex =
     Obj [(''timezones'', Arr [Str ''Africa/Lagos'', Str ''America/Lima'', Str ''America/Bogota'']),
          (''lookup'', exampleLookup)]"

definition exampleFeatures :: "feature list" where
  "exampleFeatures =
     [\<lparr>geometry = Bool False, properties = Obj [(''tzid'', Str ''America/Denver'')]\<rparr>,
      \<lparr>geometry = Bool True, properties = Obj [(''tzid'', Str ''America/Los_Angeles'')]\<rparr>,
      \<lparr>geometry = Bool True, properties = Null\<rparr>]"

text \<open>
  The geometry store answers a request that starts at offset 0 with one byte and any
  other with none; the one byte decodes to the three features above, no byte to a
  single feature. A feature contains every point or none, as its geometry says.
\<close>

definition exampleEnv :: env where
  "exampleEnv =
     \<lparr>fetchJson = (\<lambda>url. Inr exampleIndex),
      fetchRange = (\<lambda>url start end'. Inr (if start = Num (Finite 0) then [1] else [])),
      decode = (\<lambda>bufSlice. Inr (if bufSlice = [] then Feature \<lparr>geometry = Bool False, properties = Obj [(''tzid'', Str ''Asia/Tokyo'')]\<rparr>
                                  else FeatureCollection exampleFeatures)),
      inside = (\<lambda>pt f. truthy (geometry f)),
      oceanZones = exampleZones,
      hostToNumber = (\<lambda>v. None),
      hostAdd = (\<lambda>a b. None),
      hostGet = (\<lambda>v idx. None)\<rparr>"

definition exampleInstance :: boundInstance where
  "exampleInstance = fst (init exampleEnv (GeoUrl ''geo.dat'') (TzUrl ''index.json''))"

definition exampleState :: state where
  "exampleState = snd (init exampleEnv (GeoUrl ''geo.dat'') (TzUrl ''index.json''))"

text \<open>The same world with a store whose one feature has properties and no \<open>tzid\<close>.\<close>

definition untaggedEnv :: env where
  "untaggedEnv =
     exampleEnv\<lparr>decode :=
       (\<lambda>bufSlice. Inr (FeatureCollection
          [\<lparr>geometry = Bool True, properties = Obj [(''name'', Str ''Atlantis'')]\<rparr>]))\<rparr>"

text \<open>
  The same world with an index whose four quadrants are an empty array, \<^verbatim>\<open>true\<close>,
  a number and a string.
\<close>

definition malformedLookup :: jsval where
  "malformedLookup = Obj [(''a'', Arr []), (''b'', Bool True), (''c'', Num (Finite 7)), (''d'', Str ''x'')]"

definition malformedIndex :: jsval where
  "malformedIndex = Obj [(''timezones'', Arr []), (''lookup'', malformedLookup)]"

definition malformedEnv :: env where
  "malformedEnv = exampleEnv\<lparr>fetchJson := (\<lambda>url. Inr malformedIndex)\<rparr>"

definition malformedInstance :: boundInstance where
  "malformedInstance = fst (init malformedEnv (GeoUrl ''geo.dat'') (TzUrl ''index.json''))"



section \<open>Where an error can come from\<close>

lemma andThen_Inl:
  "andThen x f = Inl e \<Longrightarrow> x = Inl e \<or> (\<exists>v. x = Inr v \<and> f v = Inl e)"
  by (cases x) auto

lemma ToNumber_Inl: "ToNumber E v = Inl e \<Longrightarrow> e = TypeError"
  by (cases v) (auto split: option.splits)

lemma js_add_Inl: "js_add E a b = Inl e \<Longrightarrow> e = TypeError"
  by (auto simp: js_add_def split: if_splits option.splits dest!: andThen_Inl ToNumber_Inl)

lemma js_sub_Inl: "js_sub E a b = Inl e \<Longrightarrow> e = TypeError"
  by (auto simp: js_sub_def dest!: andThen_Inl ToNumber_Inl)

lemma js_index_Inl: "js_index E t i = Inl e \<Longrightarrow> e = TypeError"
  by (cases "(E, t, i)" rule: js_index.cases) (auto split: option.splits)

lemma mapIdx_Inl: "mapIdx E t xs = Inl e \<Longrightarrow> e = TypeError"
  by (induction xs arbitrary: e) (auto dest!: andThen_Inl js_index_Inl)

lemma js_get_Inl: "js_get v k = Inl e \<Longrightarrow> e = TypeError"
  by (auto simp: js_get_def split: if_splits)

lemma exactMatch_Inl: "exactMatch E r c = Inl e \<Longrightarrow> e = TypeError"
  by (auto simp: exactMatch_def dest!: andThen_Inl js_get_Inl mapIdx_Inl split: jsval.splits)

lemma hasRange_Inl: "hasRange E c = Inl e \<Longrightarrow> e = TypeError"
  by (auto simp: hasRange_def dest!: andThen_Inl ToNumber_Inl)

lemma hasLength_Inl: "hasLength E c = Inl e \<Longrightarrow> e = TypeError"
  by (auto simp: hasLength_def dest!: andThen_Inl ToNumber_Inl)

lemma exactBoundaries_Inl:
  "fst (exactBoundaries E g pt ol c s) = Inl e \<Longrightarrow> raisedInside e"
  by (auto simp: exactBoundaries_def raisedInside_def Let_def
           split: sum.splits prod.splits dest!: andThen_Inl js_add_Inl js_sub_Inl)

lemma analyze_Inl:
  "analyze E g r pt ol c s = Some (Inl e, s') \<Longrightarrow> raisedInside e"
  using exactBoundaries_Inl [of E g pt ol c s e]
  by (auto simp: analyze_def raisedInside_def
           split: if_splits sum.splits bool.splits dest!: hasRange_Inl hasLength_Inl exactMatch_Inl)

lemma descend_Inl:
  "fst (descend E g r pt ol lat lon cur qd s) = Inl e \<Longrightarrow> raisedInside e"
proof (induction E g r pt ol lat lon cur qd s rule: descend.induct)
  case (1 E g r pt ol lat lon cur qd s)
  obtain q qd' where nq: "nextQuad lat lon qd = (q, qd')" by (cases "nextQuad lat lon qd")
  show ?case
  proof (cases "js_get cur q")
    case (Inl e')
    with nq "1.prems" show ?thesis
      by (auto simp: descend.simps [of E g r pt ol lat lon cur qd s] raisedInside_def dest!: js_get_Inl)
  next
    case (Inr child)
    show ?thesis
    proof (cases "analyze E g r pt ol child s")
      case None
      with nq Inr "1.prems" "1.IH" [OF nq [symmetric] Inr None] show ?thesis
        by (simp add: descend.simps [of E g r pt ol lat lon cur qd s])
    next
      case (Some res)
      with nq Inr "1.prems" have "fst res = Inl e"
        by (simp add: descend.simps [of E g r pt ol lat lon cur qd s])
      with Some show ?thesis
        using analyze_Inl [of E g r pt ol child s e "snd res"] by (cases res) auto
    qed
  qed
qed

lemma inDomain_valid:
  "inDomain b x \<longleftrightarrow> \<not> (isNaN x \<or> num_gt x (Finite b) \<or> num_lt x (Finite (- b)))"
  by (cases x) (auto simp: inDomain_def num_gt_def)

section \<open>The loop, round by round\<close>

lemma analyze_None_iff:
  "analyze E g r pt ol c s = None \<longleftrightarrow> continues E c"
  by (auto simp: analyze_def continues_def split: sum.splits bool.splits)

lemma descend_continue:
  "nextQuad lat lon qd = (q, qd') \<Longrightarrow> js_get cur q = Inr child \<Longrightarrow> continues E child \<Longrightarrow>
   descend E g r pt ol lat lon cur qd s = descend E g r pt ol lat lon child (nextDepth qd') s"
  using analyze_None_iff [of E g r pt ol child s]
  by (simp add: descend.simps [of E g r pt ol lat lon cur qd s])

lemma descend_return:
  "nextQuad lat lon qd = (q, qd') \<Longrightarrow> js_get cur q = Inr child \<Longrightarrow> \<not> continues E child \<Longrightarrow>
   analyze E g r pt ol child s = Some (descend E g r pt ol lat lon cur qd s)"
  by (cases "analyze E g r pt ol child s")
     (auto simp: descend.simps [of E g r pt ol lat lon cur qd s] analyze_None_iff)

text \<open>A child that is read and does not fall through the tests decides the result.\<close>

lemma visited_descend:
  "v \<in> set (visited E lat lon cur qd) \<Longrightarrow> \<not> continues E v \<Longrightarrow>
   analyze E g r pt ol v s = Some (descend E g r pt ol lat lon cur qd s)"
proof (induction E lat lon cur qd rule: visited.induct)
  case (1 E lat lon cur qd)
  obtain q qd' where nq: "nextQuad lat lon qd = (q, qd')" by (cases "nextQuad lat lon qd")
  show ?case
  proof (cases "js_get cur q")
    case (Inl e)
    with nq "1.prems" show ?thesis by (simp add: visited.simps [of E lat lon cur qd])
  next
    case (Inr child)
    show ?thesis
    proof (cases "continues E child")
      case True
      with nq Inr "1.prems" have "v \<in> set (visited E lat lon child (nextDepth qd'))"
        by (auto simp: visited.simps [of E lat lon cur qd])
      from "1.IH" [OF nq [symmetric] Inr True this "1.prems"(2)] descend_continue [OF nq Inr True]
      show ?thesis by simp
    next
      case False
      with nq Inr "1.prems" have "v = child"
        by (auto simp: visited.simps [of E lat lon cur qd])
      with descend_return [OF nq Inr False] show ?thesis by simp
    qed
  qed
qed

lemma findImpl_descendFrom:
  "inDomain 90 lat \<Longrightarrow> lat \<noteq> Finite 90 \<Longrightarrow> inDomain 180 lon \<Longrightarrow>
   findImpl E geoData tzData lat lon s = descendFrom E geoData tzData (fixLat lat) (fixLon lon) lon s"
  by (simp add: findImpl_def descendFrom_def inDomain_valid Let_def)

text \<open>The unfolding rules that run the model on a concrete input.\<close>

lemmas run_simps =
  findImpl_def descendFrom_def fixLat_def fixLon_def quadData0_def Let_def
  num_gt_def num_ge_def num_le_def num_sub_def
  init_def init_tzData_def init_geoData_def js_get_def
  descend.simps visited.simps nextQuad_def nextDepth_def
  analyze_def continues_def hasRange_def hasLength_def
  exactBoundaries_def js_add_def js_sub_def timezonesContainingPoint_def
  exactMatch_def getTimezoneAtSea_def inDomain_def isInvalidCoordinate_def

lemmas example_simps =
  exampleInstance_def exampleState_def exampleEnv_def exampleIndex_def exampleLookup_def
  exampleFeatures_def exampleZones_def untaggedEnv_def
  malformedInstance_def malformedEnv_def malformedIndex_def malformedLookup_def

lemma invalid_coordinate_free:
  assumes "inDomain 90 lat" and "inDomain 180 lon"
  shows "\<not> isInvalidCoordinate (fst (findImpl E geoData tzData lat lon s))"
proof -
  have inside: "\<not> isInvalidCoordinate (fst (descend E geoData r pt ol la lo cur qd s'))"
    for r pt ol la lo cur qd s'
    using descend_Inl [of E geoData r pt ol la lo cur qd s']
    by (auto simp: isInvalidCoordinate_def raisedInside_def split: sum.splits error.splits)
  have got: "\<not> isInvalidCoordinate (Inl e)" if "js_get v k = Inl e" for v k e
    using js_get_Inl [OF that] by (simp add: isInvalidCoordinate_def)
  from assms show ?thesis
    by (auto simp: findImpl_def Let_def inDomain_valid inside
             split: prod.splits sum.splits dest: got)
      (auto simp: isInvalidCoordinate_def)
qed

section \<open>From the visited child to the result of \<^verbatim>\<open>findImpl\<close>\<close>

lemma findImpl_visited:
  assumes "inDomain 90 lat" "lat \<noteq> Finite 90" "inDomain 180 lon"
    and "tzData s = (Inr resp, s1)" and "js_get resp ''lookup'' = Inr lookup"
    and "child \<in> set (visited E (fixLat lat) (fixLon lon) lookup quadData0)"
    and "\<not> continues E child"
  shows "analyze E geoData resp (fixLon lon, fixLat lat) lon child s1
         = Some (findImpl E geoData tzData lat lon s)"
  using visited_descend [OF assms(6,7), of geoData resp "(fixLon lon, fixLat lat)" lon s1] assms(1-5)
  by (simp add: findImpl_descendFrom descendFrom_def)

lemma collect_filter:
  "collect E pt fs acc
   = acc @ map (\<lambda>f. js_prop (properties f) ''tzid'') (filter (\<lambda>f. inside E pt f \<and> truthy (properties f)) fs)"
  by (induction fs arbitrary: acc) auto

lemma timezonesContainingPoint_filter:
  "timezonesContainingPoint E pt gj
   = map (\<lambda>f. js_prop (properties f) ''tzid'')
       (filter (\<lambda>f. inside E pt f \<and> truthy (properties f)) (featuresOf gj))"
  by (cases gj) (simp_all add: timezonesContainingPoint_def featuresOf_def collect_filter)

lemma geometryLeaf_truthy: "isGeometryLeaf c p l \<Longrightarrow> truthy c"
  by (cases c) (auto simp: isGeometryLeaf_def)

lemma geometryLeaf_hasRange: "isGeometryLeaf c p l \<Longrightarrow> hasRange E c = Inr True"
  by (auto simp: isGeometryLeaf_def hasRange_def num_ge_def)

lemma geometryLeaf_end:
  "isGeometryLeaf c p l \<Longrightarrow>
   andThen (js_add E (js_prop c ''pos'') (js_prop c ''len'')) (\<lambda>sum. js_sub E sum (Num (Finite 1)))
   = Inr (Num (Finite (p + l - 1)))"
  by (simp add: isGeometryLeaf_def js_add_def js_sub_def num_sub_def)

lemma geometryLeaf_analyze:
  "isGeometryLeaf c p l \<Longrightarrow>
   analyze E geoData resp pt ol c s
   = Some (case geoData (Num (Finite p)) (Num (Finite (p + l - 1))) s of
             (Inl msg, s') \<Rightarrow> (Inl (Propagated msg), s')
           | (Inr bufSlice, s') \<Rightarrow>
               (case decode E bufSlice of
                  Inl msg \<Rightarrow> (Inl (Propagated msg), s')
                | Inr geoJson \<Rightarrow>
                    (Inr (if timezonesContainingPoint E pt geoJson = []
                          then getTimezoneAtSea (oceanZones E) ol
                          else timezonesContainingPoint E pt geoJson), s')))"
  using geometryLeaf_end [of c p l E]
  by (auto simp: analyze_def geometryLeaf_truthy geometryLeaf_hasRange exactBoundaries_def Let_def
       isGeometryLeaf_def split: prod.splits sum.splits)

lemma geometryLeaf_not_continues: "isGeometryLeaf c p l \<Longrightarrow> \<not> continues E c"
  by (simp add: continues_def geometryLeaf_hasRange)

lemma geometryLeaf_findImpl:
  assumes "inDomain 90 lat" "lat \<noteq> Finite 90" "inDomain 180 lon"
    and "tzData s = (Inr resp, s1)" and "js_get resp ''lookup'' = Inr lookup"
    and "child \<in> set (visited E (fixLat lat) (fixLon lon) lookup quadData0)"
    and "isGeometryLeaf child p l"
  shows "findImpl E geoData tzData lat lon s
   = (case geoData (Num (Finite p)) (Num (Finite (p + l - 1))) s1 of
        (Inl msg, s') \<Rightarrow> (Inl (Propagated msg), s')
      | (Inr bufSlice, s') \<Rightarrow>
          (case decode E bufSlice of
             Inl msg \<Rightarrow> (Inl (Propagated msg), s')
           | Inr geoJson \<Rightarrow>
               (Inr (if timezonesContainingPoint E (fixLon lon, fixLat lat) geoJson = []
                     then getTimezoneAtSea (oceanZones E) lon
                     else timezonesContainingPoint E (fixLon lon, fixLat lat) geoJson), s')))"
  using findImpl_visited [where tzData = tzData and s = s and E = E and geoData = geoData,
      OF assms(1-6) geometryLeaf_not_continues [OF assms(7)]]
    geometryLeaf_analyze [OF assms(7), of E geoData resp "(fixLon lon, fixLat lat)" lon s1]
  by simp

lemma rangeRequests_append: "rangeRequests (xs @ ys) = rangeRequests xs @ rangeRequests ys"
  by (induction xs rule: rangeRequests.induct) auto

lemma indexRequests_append: "indexRequests (xs @ ys) = indexRequests xs + indexRequests ys"
  by (induction xs rule: indexRequests.induct) auto

lemma init_tzData_rangeRequests:
  "rangeRequests (calls (snd (init_tzData E tsrc s))) = rangeRequests (calls s)"
  by (auto simp: init_tzData_def Let_def rangeRequests_append split: TzDataSource.splits option.splits)

lemma init_geoData_rangeRequests:
  "rangeRequests (calls (snd (init_geoData E gsrc a b s))) = rangeRequests (calls s) @ [(a, b)]"
  by (auto simp: init_geoData_def rangeRequests_append split: GeoDataSource.splits)

section \<open>Malformed nodes and deep indexes\<close>

lemma chain_continues: "continues E (chain n)"
  by (cases n) (simp_all add: continues_def hasRange_def hasLength_def num_ge_def num_gt_def)

lemma chain_get: "js_get (chain (Suc n)) ''a'' = Inr (chain n)"
  by (simp add: js_get_def)

lemma cornered_nextQuad:
  "cornered la lo q \<Longrightarrow> nextQuad (Finite la) (Finite lo) q = (''a'', q\<lparr>bottom := midLat q, left := midLon q\<rparr>)"
  by (simp add: cornered_def nextQuad_def num_ge_def)

lemma cornered_nextDepth:
  "cornered la lo q \<Longrightarrow> cornered la lo (nextDepth (q\<lparr>bottom := midLat q, left := midLon q\<rparr>))"
  by (simp add: cornered_def nextDepth_def)

lemma idList_not_continues: "\<not> continues E (Arr [Num (Finite 0)])"
  by (simp add: continues_def hasLength_def num_gt_def)

lemma descend_bottom:
  assumes "cornered la lo q" and "js_get r ''timezones'' = Inr (Arr [Str ''Etc/UTC''])"
  shows "descend E g r pt ol (Finite la) (Finite lo) (chain 0) q s = (Inr [Str ''Etc/UTC''], s)"
proof -
  have child: "js_get (chain 0) ''a'' = Inr (Arr [Num (Finite 0)])"
    by (simp add: js_get_def)
  have "analyze E g r pt ol (Arr [Num (Finite 0)]) s = Some (Inr [Str ''Etc/UTC''], s)"
    using assms(2)
    by (simp add: analyze_def hasRange_def hasLength_def num_ge_def num_gt_def exactMatch_def)
  with descend_return [OF cornered_nextQuad [OF assms(1)] child idList_not_continues, of E g r pt ol s]
  show ?thesis by simp
qed

lemma descend_chain:
  assumes "js_get r ''timezones'' = Inr (Arr [Str ''Etc/UTC''])"
  shows "cornered la lo q \<Longrightarrow>
    descend E g r pt ol (Finite la) (Finite lo) (chain n) q s = (Inr [Str ''Etc/UTC''], s)"
proof (induction n arbitrary: q)
  case 0
  then show ?case by (rule descend_bottom [OF _ assms])
next
  case (Suc n)
  from descend_continue [OF cornered_nextQuad [OF Suc.prems] chain_get chain_continues]
    Suc.IH [OF cornered_nextDepth [OF Suc.prems]]
  show ?case by simp
qed

lemma visited_chain:
  "cornered la lo q \<Longrightarrow> length (visited E (Finite la) (Finite lo) (chain n) q) = Suc n"
proof (induction n arbitrary: q)
  case 0
  have child: "js_get (chain 0) ''a'' = Inr (Arr [Num (Finite 0)])"
    by (simp add: js_get_def)
  from cornered_nextQuad [OF 0] child idList_not_continues [of E] show ?case
    by (subst visited.simps) simp
next
  case (Suc n)
  from cornered_nextQuad [OF Suc.prems] Suc.IH [OF cornered_nextDepth [OF Suc.prems]]
  show ?case
    by (subst visited.simps) (simp add: chain_get chain_continues del: chain.simps)
qed

lemma cornered_quadData0: "cornered 89.9999 179.9999 quadData0"
  by (simp add: cornered_def quadData0_def)

lemma deep_findImpl:
  assumes "tzData s = (Inr (deepIndex n), s1)"
  shows "findImpl E geoData tzData (Finite 89.9999) (Finite 179.9999) s = (Inr [Str ''Etc/UTC''], s1)"
    and "length (visited E (fixLat (Finite 89.9999)) (fixLon (Finite 179.9999)) (chain n) quadData0) = Suc n"
proof -
  have dom: "inDomain 90 (Finite 89.9999)" "Finite 89.9999 \<noteq> Finite 90" "inDomain 180 (Finite 179.9999)"
    by (simp_all add: inDomain_def)
  have edge: "fixLat (Finite 89.9999) = Finite 89.9999" "fixLon (Finite 179.9999) = Finite 179.9999"
    by (simp_all add: fixLat_def fixLon_def num_ge_def)
  have tzs: "js_get (deepIndex n) ''timezones'' = Inr (Arr [Str ''Etc/UTC''])"
    and lookup: "js_get (deepIndex n) ''lookup'' = Inr (chain n)"
    by (simp_all add: js_get_def deepIndex_def)
  show "findImpl E geoData tzData (Finite 89.9999) (Finite 179.9999) s = (Inr [Str ''Etc/UTC''], s1)"
    using descend_chain [OF tzs cornered_quadData0, of E geoData "(Finite 179.9999, Finite 89.9999)"
        "Finite 179.9999" n s1] assms lookup
    unfolding findImpl_descendFrom [OF dom] edge descendFrom_def by simp
  show "length (visited E (fixLat (Finite 89.9999)) (fixLon (Finite 179.9999)) (chain n) quadData0) = Suc n"
    unfolding edge by (rule visited_chain [OF cornered_quadData0])
qed

lemma exactBoundaries_not_unexpected:
  "fst (exactBoundaries E g pt ol c s) \<noteq> Inl UnexpectedDataType"
  by (auto simp: exactBoundaries_def Let_def
           split: sum.splits prod.splits dest!: andThen_Inl js_add_Inl js_sub_Inl)

lemma analyze_unexpected:
  "analyze E g r pt ol c s = Some (Inl UnexpectedDataType, s') \<longleftrightarrow> unexpectedNode c \<and> s' = s"
proof (cases c)
  case (Str t)
  then show ?thesis
    by (auto simp: analyze_def unexpectedNode_def hasRange_def hasLength_def num_ge_def num_gt_def
          dest!: exactMatch_Inl)
next
  case (Arr xs)
  then show ?thesis
    using exactBoundaries_not_unexpected [of E g pt ol c s]
    by (auto simp: analyze_def unexpectedNode_def split: sum.splits bool.splits
          dest!: exactMatch_Inl hasRange_Inl hasLength_Inl)
next
  case (Obj kvs)
  then show ?thesis
    using exactBoundaries_not_unexpected [of E g pt ol c s]
    by (auto simp: analyze_def unexpectedNode_def split: sum.splits bool.splits
          dest!: exactMatch_Inl hasRange_Inl hasLength_Inl)
qed (auto simp: analyze_def unexpectedNode_def hasRange_def hasLength_def num_ge_def num_gt_def)

lemma unexpected_not_continues: "unexpectedNode c \<Longrightarrow> \<not> continues E c"
  by (cases c) (auto simp: unexpectedNode_def continues_def)

lemma descend_unexpected:
  "fst (descend E g r pt ol lat lon cur qd s) = Inl UnexpectedDataType
   \<longleftrightarrow> (\<exists>c \<in> set (visited E lat lon cur qd). unexpectedNode c)"
proof (induction E g r pt ol lat lon cur qd s rule: descend.induct)
  case (1 E g r pt ol lat lon cur qd s)
  obtain q qd' where nq: "nextQuad lat lon qd = (q, qd')" by (cases "nextQuad lat lon qd")
  show ?case
  proof (cases "js_get cur q")
    case (Inl e)
    with nq js_get_Inl [OF Inl] show ?thesis
      by (simp add: descend.simps [of E g r pt ol lat lon cur qd s] visited.simps [of E lat lon cur qd])
  next
    case (Inr child)
    show ?thesis
    proof (cases "continues E child")
      case True
      then have none: "analyze E g r pt ol child s = None" by (simp add: analyze_None_iff)
      from True unexpected_not_continues [of child E] have "\<not> unexpectedNode child" by blast
      with "1.IH" [OF nq [symmetric] Inr none] nq Inr True descend_continue [OF nq Inr True, of g r pt ol s]
      show ?thesis
        by (simp add: visited.simps [of E lat lon cur qd])
    next
      case False
      from descend_return [OF nq Inr False, of g r pt ol s]
        analyze_unexpected [of E g r pt ol child s "snd (descend E g r pt ol lat lon cur qd s)"]
        analyze_unexpected [of E g r pt ol child s s]
      have "fst (descend E g r pt ol lat lon cur qd s) = Inl UnexpectedDataType \<longleftrightarrow> unexpectedNode child"
        by (cases "descend E g r pt ol lat lon cur qd s") auto
      with nq Inr False show ?thesis
        by (simp add: visited.simps [of E lat lon cur qd])
    qed
  qed
qed

lemma string_analyze:
  "t \<noteq> [] \<Longrightarrow> analyze E g r pt ol (Str t) s = Some (Inl TypeError, s)"
  by (cases "js_get r ''timezones''")
     (auto simp: analyze_def hasRange_def hasLength_def num_ge_def num_gt_def exactMatch_def
        dest: js_get_Inl)

section \<open>The memo of the index\<close>

lemma init_geoData_index:
  "tzDataPromise (snd (init_geoData E gsrc a b s)) = tzDataPromise s
   \<and> indexRequests (calls (snd (init_geoData E gsrc a b s))) = indexRequests (calls s)"
  by (auto simp: init_geoData_def indexRequests_append split: GeoDataSource.splits)

lemma exactBoundaries_index:
  "tzDataPromise (snd (exactBoundaries E (init_geoData E gsrc) pt ol c s)) = tzDataPromise s
   \<and> indexRequests (calls (snd (exactBoundaries E (init_geoData E gsrc) pt ol c s))) = indexRequests (calls s)"
proof (cases "andThen (js_add E (js_prop c ''pos'') (js_prop c ''len'')) (\<lambda>sum. js_sub E sum (Num (Finite 1)))")
  case (Inl e)
  then show ?thesis by (simp add: exactBoundaries_def)
next
  case (Inr end')
  with init_geoData_index [of E gsrc "js_prop c ''pos''" end' s] show ?thesis
    by (auto simp: exactBoundaries_def Let_def split: prod.splits sum.splits)
qed

lemma analyze_index:
  "analyze E (init_geoData E gsrc) r pt ol c s = Some res \<Longrightarrow>
   tzDataPromise (snd res) = tzDataPromise s \<and> indexRequests (calls (snd res)) = indexRequests (calls s)"
  using exactBoundaries_index [of E gsrc pt ol c s]
  by (auto simp: analyze_def split: if_splits sum.splits bool.splits)

lemma descend_index:
  "tzDataPromise (snd (descend E (init_geoData E gsrc) r pt ol lat lon cur qd s)) = tzDataPromise s
   \<and> indexRequests (calls (snd (descend E (init_geoData E gsrc) r pt ol lat lon cur qd s)))
       = indexRequests (calls s)"
proof (induction E "init_geoData E gsrc" r pt ol lat lon cur qd s rule: descend.induct)
  case (1 E r pt ol lat lon cur qd s)
  obtain q qd' where nq: "nextQuad lat lon qd = (q, qd')" by (cases "nextQuad lat lon qd")
  show ?case
  proof (cases "js_get cur q")
    case (Inl e)
    with nq show ?thesis
      by (simp add: descend.simps [of E _ r pt ol lat lon cur qd s])
  next
    case (Inr child)
    show ?thesis
    proof (cases "analyze E (init_geoData E gsrc) r pt ol child s")
      case None
      with nq Inr "1.hyps" [OF nq [symmetric] Inr None] show ?thesis
        by (simp add: descend.simps [of E _ r pt ol lat lon cur qd s])
    next
      case (Some res)
      with nq Inr analyze_index [OF Some] show ?thesis
        by (simp add: descend.simps [of E _ r pt ol lat lon cur qd s])
    qed
  qed
qed

lemma find_url_memoized:
  assumes "memoized s"
  shows "memoized (snd (findImpl E (init_geoData E gsrc) (init_tzData E (TzUrl url)) lat lon s))"
proof (cases "reachesIndex (lat, lon)")
  case False
  with assms show ?thesis
    by (auto simp: findImpl_def Let_def reachesIndex_def inDomain_valid)
next
  case True
  obtain p s1 where tz: "init_tzData E (TzUrl url) s = (p, s1)"
    by (cases "init_tzData E (TzUrl url) s")
  with assms have m: "memoized s1"
    by (auto simp: init_tzData_def memoized_def Let_def indexRequests_append split: option.splits)
  have keep: "memoized (snd (descend E (init_geoData E gsrc) r pt ol la lo cur qd s1))" for r pt ol la lo cur qd
    using descend_index [of E gsrc r pt ol la lo cur qd s1] m by (simp add: memoized_def)
  from True have "findImpl E (init_geoData E gsrc) (init_tzData E (TzUrl url)) lat lon s
      = descendFrom E (init_geoData E gsrc) (init_tzData E (TzUrl url)) (fixLat lat) (fixLon lon) lon s"
    by (simp add: reachesIndex_def findImpl_descendFrom)
  with tz m keep show ?thesis
    by (auto simp: descendFrom_def split: sum.splits)
qed

lemma find_fn_count:
  "indexRequests (calls (snd (findImpl E (init_geoData E gsrc) (init_tzData E (TzFn f)) lat lon s)))
   = indexRequests (calls s) + (if reachesIndex (lat, lon) then 1 else 0)"
proof (cases "reachesIndex (lat, lon)")
  case False
  then show ?thesis
    by (auto simp: findImpl_def Let_def reachesIndex_def inDomain_valid)
next
  case True
  let ?s1 = "s\<lparr>calls := calls s @ [IndexCall]\<rparr>"
  have tz: "init_tzData E (TzFn f) s = (f, ?s1)"
    by (simp add: init_tzData_def)
  have keep: "indexRequests (calls (snd (descend E (init_geoData E gsrc) r pt ol la lo cur qd ?s1)))
      = indexRequests (calls s) + 1" for r pt ol la lo cur qd
    using descend_index [of E gsrc r pt ol la lo cur qd ?s1] by (simp add: indexRequests_append)
  from True have "findImpl E (init_geoData E gsrc) (init_tzData E (TzFn f)) lat lon s
      = descendFrom E (init_geoData E gsrc) (init_tzData E (TzFn f)) (fixLat lat) (fixLon lon) lon s"
    by (simp add: reachesIndex_def findImpl_descendFrom)
  with tz keep True show ?thesis
    by (auto simp: descendFrom_def indexRequests_append split: sum.splits)
qed

lemma finds_Cons_snd:
  "snd (finds inst ((lat, lon) # ps) s) = snd (finds inst ps (snd (find' inst lat lon s)))"
  by (simp split: prod.splits)

lemma find'_init: "find' (fst (init E gsrc tsrc)) = findImpl E (init_geoData E gsrc) (init_tzData E tsrc)"
  by (simp add: init_def)

lemma finds_url_memoized:
  "memoized s \<Longrightarrow> memoized (snd (finds (fst (init E gsrc (TzUrl url))) ps s))"
proof (induction ps arbitrary: s)
  case Nil
  then show ?case by simp
next
  case (Cons p ps)
  obtain lat lon where p: "p = (lat, lon)" by (cases p)
  from Cons.IH [OF find_url_memoized [OF Cons.prems, of E gsrc url lat lon]] p
  show ?case
    by (simp only: finds_Cons_snd find'_init)
qed

lemma finds_fn_count:
  "indexRequests (calls (snd (finds (fst (init E gsrc (TzFn f))) ps s)))
   = indexRequests (calls s) + length (filter reachesIndex ps)"
proof (induction ps arbitrary: s)
  case Nil
  then show ?case by simp
next
  case (Cons p ps)
  obtain lat lon where p: "p = (lat, lon)" by (cases p)
  from Cons.IH [of "snd (findImpl E (init_geoData E gsrc) (init_tzData E (TzFn f)) lat lon s)"]
    find_fn_count [of E gsrc f lat lon s] p
  show ?case
    by (simp add: finds_Cons_snd find'_init del: finds.simps)
qed

lemma init_memoized: "memoized (snd (init E gsrc tsrc))"
  by (simp add: init_def memoized_def)

lemma find_url_promise:
  "tzDataPromise (snd (findImpl E (init_geoData E gsrc) (init_tzData E (TzUrl url)) lat lon s)) = None
   \<longleftrightarrow> tzDataPromise s = None \<and> \<not> reachesIndex (lat, lon)"
proof (cases "reachesIndex (lat, lon)")
  case False
  then show ?thesis
    by (auto simp: findImpl_def Let_def reachesIndex_def inDomain_valid)
next
  case True
  obtain p s1 where tz: "init_tzData E (TzUrl url) s = (p, s1)"
    by (cases "init_tzData E (TzUrl url) s")
  then have m: "tzDataPromise s1 \<noteq> None"
    by (auto simp: init_tzData_def Let_def split: option.splits)
  have keep: "tzDataPromise (snd (descend E (init_geoData E gsrc) r pt ol la lo cur qd s1)) \<noteq> None"
    for r pt ol la lo cur qd
    using descend_index [of E gsrc r pt ol la lo cur qd s1] m by simp
  from True have "findImpl E (init_geoData E gsrc) (init_tzData E (TzUrl url)) lat lon s
      = descendFrom E (init_geoData E gsrc) (init_tzData E (TzUrl url)) (fixLat lat) (fixLon lon) lon s"
    by (simp add: reachesIndex_def findImpl_descendFrom)
  with tz m keep True show ?thesis
    by (auto simp: descendFrom_def split: sum.splits)
qed

lemma finds_url_promise:
  "tzDataPromise (snd (finds (fst (init E gsrc (TzUrl url))) ps s)) = None
   \<longleftrightarrow> tzDataPromise s = None \<and> filter reachesIndex ps = []"
proof (induction ps arbitrary: s)
  case Nil
  then show ?case by simp
next
  case (Cons p ps)
  obtain lat lon where p: "p = (lat, lon)" by (cases p)
  from Cons.IH [of "snd (findImpl E (init_geoData E gsrc) (init_tzData E (TzUrl url)) lat lon s)"]
    find_url_promise [of E gsrc url lat lon s] p
  show ?case
    by (auto simp: finds_Cons_snd find'_init simp del: finds.simps)
qed

lemma finds_url_count:
  "indexRequests (calls (snd (finds (fst (init E gsrc (TzUrl url))) ps (snd (init E gsrc (TzUrl url))))))
   = (if filter reachesIndex ps = [] then 0 else 1)"
  using finds_url_memoized [where s = "snd (init E gsrc (TzUrl url))" and E = E and gsrc = gsrc
      and url = url and ps = ps, OF init_memoized]
    finds_url_promise [of E gsrc url ps "snd (init E gsrc (TzUrl url))"]
  by (auto simp: memoized_def init_def split: option.splits)

section \<open>Well-formed data\<close>
















lemma unexpectedNode_iff:
  "unexpectedNode v \<longleftrightarrow> v = Bool True \<or> (\<exists>n. v = Num n \<and> n \<noteq> NaN \<and> n \<noteq> Finite 0)"
  by (cases v) (auto simp: unexpectedNode_def elim: isNaN.elims)

section \<open>Validation and the north pole\<close>

text \<open>
  C2. \<^verbatim>\<open>find\<close> fails with an invalid-coordinate error exactly when the latitude
  is \<^verbatim>\<open>NaN\<close> or outside \<open>[-90, 90]\<close> or the longitude is \<^verbatim>\<open>NaN\<close> or outside
  \<open>[-180, 180]\<close>; the failure comes before any request: the state of the instance is
  returned as it was, and the outcome is the same whatever the two providers are,
  so that neither was called.
\<close>

theorem invalid_coordinate_iff:
  "isInvalidCoordinate (fst (findImpl E geoData tzData lat lon s))
     = (\<not> inDomain 90 lat \<or> \<not> inDomain 180 lon)
   \<and> (isInvalidCoordinate (fst (findImpl E geoData tzData lat lon s)) \<longrightarrow>
        snd (findImpl E geoData tzData lat lon s) = s
        \<and> (\<forall>geoData' tzData'.
              findImpl E geoData' tzData' lat lon s = findImpl E geoData tzData lat lon s))"
proof -
  have inside: "\<not> isInvalidCoordinate (fst (descend E geoData r pt ol la lo cur qd s'))"
    for r pt ol la lo cur qd s'
    using descend_Inl [of E geoData r pt ol la lo cur qd s']
    by (auto simp: isInvalidCoordinate_def raisedInside_def split: sum.splits error.splits)
  have got: "\<not> isInvalidCoordinate (Inl e)" if "js_get v k = Inl e" for v k e
    using js_get_Inl [OF that] by (simp add: isInvalidCoordinate_def)
  have iff: "isInvalidCoordinate (fst (findImpl E geoData tzData lat lon s))
     = (\<not> inDomain 90 lat \<or> \<not> inDomain 180 lon)"
    by (auto simp: findImpl_def Let_def inDomain_valid inside
             split: prod.splits sum.splits dest: got)
      (auto simp: isInvalidCoordinate_def)
  have early: "findImpl E g t lat lon s
      = (if \<not> inDomain 90 lat then (Inl (InvalidLatitude lat), s) else (Inl (InvalidLongitude lon), s))"
    if "\<not> inDomain 90 lat \<or> \<not> inDomain 180 lon" for g t
    using that by (auto simp: findImpl_def Let_def inDomain_valid)
  have "isInvalidCoordinate (fst (findImpl E geoData tzData lat lon s)) \<longrightarrow>
        snd (findImpl E geoData tzData lat lon s) = s
        \<and> (\<forall>geoData' tzData'.
              findImpl E geoData' tzData' lat lon s = findImpl E geoData tzData lat lon s)"
  proof (intro impI conjI allI)
    assume bad: "isInvalidCoordinate (fst (findImpl E geoData tzData lat lon s))"
    with iff have out: "\<not> inDomain 90 lat \<or> \<not> inDomain 180 lon" by simp
    show "snd (findImpl E geoData tzData lat lon s) = s"
      by (simp add: early [OF out])
    show "findImpl E g t lat lon s = findImpl E geoData tzData lat lon s" for g t
      by (simp only: early [OF out])
  qed
  with iff show ?thesis by (rule conjI)
qed

theorem invalid_coordinate_iff_witness:
  "isInvalidCoordinate (fst (find' exampleInstance (Finite 91) (Finite 0) exampleState))
   \<and> snd (find' exampleInstance (Finite 91) (Finite 0) exampleState) = exampleState
   \<and> isInvalidCoordinate (fst (find' exampleInstance (Finite 0) NaN exampleState))
   \<and> \<not> isInvalidCoordinate (fst (find' exampleInstance (Finite (- 90)) (Finite 180) exampleState))"
proof -
  let ?g = "init_geoData exampleEnv (GeoUrl ''geo.dat'')"
  let ?t = "init_tzData exampleEnv (TzUrl ''index.json'')"
  have inst: "find' exampleInstance = findImpl exampleEnv ?g ?t"
    by (simp add: exampleInstance_def init_def)
  note c2 = invalid_coordinate_iff [where E = exampleEnv and geoData = ?g and tzData = ?t and s = exampleState]
  have a: "isInvalidCoordinate (fst (findImpl exampleEnv ?g ?t (Finite 91) (Finite 0) exampleState))"
    using c2 [of "Finite 91" "Finite 0", THEN conjunct1] by (simp add: inDomain_def)
  then have b: "snd (findImpl exampleEnv ?g ?t (Finite 91) (Finite 0) exampleState) = exampleState"
    using c2 [of "Finite 91" "Finite 0", THEN conjunct2] by blast
  have c: "isInvalidCoordinate (fst (findImpl exampleEnv ?g ?t (Finite 0) NaN exampleState))"
    using c2 [of "Finite 0" NaN, THEN conjunct1] by (simp add: inDomain_def)
  have d: "\<not> isInvalidCoordinate (fst (findImpl exampleEnv ?g ?t (Finite (- 90)) (Finite 180) exampleState))"
    using c2 [of "Finite (- 90)" "Finite 180", THEN conjunct1] by (simp add: inDomain_def)
  from a b c d show ?thesis
    unfolding inst by (intro conjI)
qed

text \<open>
  C3. For every valid longitude \<open>x\<close>, \<^verbatim>\<open>find(90, x)\<close> returns the id of every
  band of the ocean table, in table order, with no request made (the state is
  returned as it was, whatever the providers are), and the result is the same for
  any two valid longitudes.
\<close>

theorem north_pole_all_ocean_zones:
  assumes "inDomain 180 x" and "inDomain 180 y"
  shows "findImpl E geoData tzData (Finite 90) x s = (Inr (map (\<lambda>zone. Str (tzid zone)) (oceanZones E)), s)
         \<and> findImpl E geoData tzData (Finite 90) x s = findImpl E geoData tzData (Finite 90) y s"
  using assms by (simp add: findImpl_def inDomain_valid num_gt_def)

theorem north_pole_all_ocean_zones_witness:
  "inDomain 180 (Finite 0) \<and> inDomain 180 (Finite (- 122.0839))
   \<and> find' exampleInstance (Finite 90) (Finite 0) exampleState
       = (Inr [Str ''Etc/GMT-12'', Str ''Etc/GMT-9'', Str ''Etc/GMT-1'', Str ''Etc/GMT'', Str ''Etc/GMT+12''],
          exampleState)
   \<and> find' exampleInstance (Finite 90) (Finite 0) exampleState
       = find' exampleInstance (Finite 90) (Finite (- 122.0839)) exampleState"
proof -
  let ?g = "init_geoData exampleEnv (GeoUrl ''geo.dat'')"
  let ?t = "init_tzData exampleEnv (TzUrl ''index.json'')"
  have x: "inDomain 180 (Finite 0)" and y: "inDomain 180 (Finite (- 122.0839))"
    by (simp_all add: inDomain_def)
  have ids: "map (\<lambda>zone. Str (tzid zone)) (oceanZones exampleEnv)
      = [Str ''Etc/GMT-12'', Str ''Etc/GMT-9'', Str ''Etc/GMT-1'', Str ''Etc/GMT'', Str ''Etc/GMT+12'']"
    by (simp add: exampleEnv_def exampleZones_def)
  have inst: "find' exampleInstance = findImpl exampleEnv ?g ?t"
    by (simp add: exampleInstance_def init_def)
  from north_pole_all_ocean_zones [OF x y, of exampleEnv ?g ?t exampleState] x y
  show ?thesis
    unfolding inst ids by auto
qed

section \<open>The edges of the world\<close>

text \<open>
  C10. The boundary values other than the north pole meet no special case:
  \<^verbatim>\<open>find(-90, lon)\<close>, \<^verbatim>\<open>find(lat, 180)\<close> and \<^verbatim>\<open>find(lat, -180)\<close> do not fail
  validation and run the ordinary lookup, with the latitude fixed to \<open>-89.9999\<close> and
  the longitude to \<open>179.9999\<close> or \<open>-179.9999\<close> (the original longitude is kept for the
  fallback). Every valid input but latitude 90 runs the ordinary lookup, so the
  south pole has no shortcut: it asks for the index first, like any other point.
\<close>

theorem edges_descend_normally:
  "(inDomain 180 lon \<longrightarrow>
      findImpl E geoData tzData (Finite (- 90)) lon s
        = descendFrom E geoData tzData (Finite (- 89.9999)) (fixLon lon) lon s
      \<and> \<not> isInvalidCoordinate (fst (findImpl E geoData tzData (Finite (- 90)) lon s)))
   \<and> (inDomain 90 lat \<and> lat \<noteq> Finite 90 \<longrightarrow>
      findImpl E geoData tzData lat (Finite 180) s
        = descendFrom E geoData tzData (fixLat lat) (Finite 179.9999) (Finite 180) s
      \<and> findImpl E geoData tzData lat (Finite (- 180)) s
        = descendFrom E geoData tzData (fixLat lat) (Finite (- 179.9999)) (Finite (- 180)) s
      \<and> \<not> isInvalidCoordinate (fst (findImpl E geoData tzData lat (Finite 180) s))
      \<and> \<not> isInvalidCoordinate (fst (findImpl E geoData tzData lat (Finite (- 180)) s)))
   \<and> (inDomain 90 lat \<and> lat \<noteq> Finite 90 \<and> inDomain 180 lon \<longrightarrow>
      findImpl E geoData tzData lat lon s
        = descendFrom E geoData tzData (fixLat lat) (fixLon lon) lon s)
   \<and> (\<forall>msg s'. inDomain 180 lon \<and> tzData s = (Inl msg, s') \<longrightarrow>
      findImpl E geoData tzData (Finite (- 90)) lon s = (Inl (Propagated msg), s'))"
proof -
  have south: "inDomain 90 (Finite (- 90))" "Finite (- 90) \<noteq> Finite 90"
    and east: "inDomain 180 (Finite 180)" and west: "inDomain 180 (Finite (- 180))"
    by (simp_all add: inDomain_def)
  have edge: "fixLat (Finite (- 90)) = Finite (- 89.9999)" "fixLon (Finite 180) = Finite 179.9999"
    "fixLon (Finite (- 180)) = Finite (- 179.9999)"
    by (simp_all add: fixLat_def fixLon_def num_le_def num_ge_def)
  have valid: "\<not> isInvalidCoordinate (fst (findImpl E geoData tzData la lo s))"
    if "inDomain 90 la" "inDomain 180 lo" for la lo
    using invalid_coordinate_free [OF that] .
  show ?thesis
    using findImpl_descendFrom [OF south, of lon E geoData tzData s]
      findImpl_descendFrom [OF _ _ east, of lat E geoData tzData s]
      findImpl_descendFrom [OF _ _ west, of lat E geoData tzData s]
      findImpl_descendFrom [of lat lon E geoData tzData s]
      valid [OF south(1), of lon] valid [OF _ east, of lat] valid [OF _ west, of lat]
    by (auto simp: edge descendFrom_def)
qed

theorem edges_descend_normally_witness:
  "inDomain 180 (Finite 180) \<and> inDomain 180 (Finite (- 180)) \<and> inDomain 90 (Finite (- 90))
   \<and> Finite (- 90) \<noteq> Finite 90
   \<and> find' exampleInstance (Finite (- 90)) (Finite 180) exampleState
       = descendFrom exampleEnv (init_geoData exampleEnv (GeoUrl ''geo.dat''))
           (init_tzData exampleEnv (TzUrl ''index.json''))
           (Finite (- 89.9999)) (Finite 179.9999) (Finite 180) exampleState
   \<and> fst (find' exampleInstance (Finite (- 90)) (Finite 180) exampleState) = Inr [Str ''Etc/GMT-12'']
   \<and> fst (find' exampleInstance (Finite (- 90)) (Finite (- 180)) exampleState)
       = Inr [Str ''America/Lima'', Str ''America/Bogota'']
   \<and> calls (snd (find' exampleInstance (Finite (- 90)) (Finite 180) exampleState))
       = [IndexFetch ''index.json'']"
proof -
  let ?g = "init_geoData exampleEnv (GeoUrl ''geo.dat'')"
  let ?t = "init_tzData exampleEnv (TzUrl ''index.json'')"
  have dom: "inDomain 180 (Finite 180)" "inDomain 180 (Finite (- 180))" "inDomain 90 (Finite (- 90))"
    by (simp_all add: inDomain_def)
  have inst: "find' exampleInstance = findImpl exampleEnv ?g ?t"
    by (simp add: exampleInstance_def init_def)
  have east: "findImpl exampleEnv ?g ?t (Finite (- 90)) (Finite 180) exampleState
      = descendFrom exampleEnv ?g ?t (Finite (- 89.9999)) (Finite 179.9999) (Finite 180) exampleState"
    using edges_descend_normally [where lat = "Finite (- 90)" and lon = "Finite 180" and E = exampleEnv
        and geoData = ?g and tzData = ?t and s = exampleState] dom
    by (simp add: fixLat_def fixLon_def num_ge_def num_le_def)
  have west: "findImpl exampleEnv ?g ?t (Finite (- 90)) (Finite (- 180)) exampleState
      = descendFrom exampleEnv ?g ?t (Finite (- 89.9999)) (Finite (- 179.9999)) (Finite (- 180)) exampleState"
    using edges_descend_normally [where lat = "Finite (- 90)" and lon = "Finite (- 180)" and E = exampleEnv
        and geoData = ?g and tzData = ?t and s = exampleState] dom
    by (simp add: fixLat_def fixLon_def num_ge_def num_le_def)
  have run_east: "descendFrom exampleEnv ?g ?t (Finite (- 89.9999)) (Finite 179.9999) (Finite 180) exampleState
      = (Inr [Str ''Etc/GMT-12''],
         \<lparr>tzDataPromise = Some (Inr exampleIndex), calls = [IndexFetch ''index.json'']\<rparr>)"
    by (simp add: run_simps example_simps)
  have run_west: "descendFrom exampleEnv ?g ?t (Finite (- 89.9999)) (Finite (- 179.9999)) (Finite (- 180)) exampleState
      = (Inr [Str ''America/Lima'', Str ''America/Bogota''],
         \<lparr>tzDataPromise = Some (Inr exampleIndex), calls = [IndexFetch ''index.json'']\<rparr>)"
    by (simp add: run_simps example_simps)
  show ?thesis
    unfolding inst east west using dom run_east run_west by simp
qed

section \<open>The quadrant step\<close>

text \<open>
  C8. At every step of the descent the quadrant label and the new box follow the
  rule of the specification: at or above \<open>midLat\<close> and at or right of \<open>midLon\<close> is
  \<open>a\<close>, with \<open>bottom = midLat\<close> and \<open>left = midLon\<close>; at or above and left of is \<open>b\<close>, with
  \<open>bottom = midLat\<close> and \<open>right = midLon\<close>; below and left of is \<open>c\<close>, with
  \<open>top = midLat\<close> and \<open>right = midLon\<close>; the remaining case is \<open>d\<close>, with
  \<open>top = midLat\<close> and \<open>left = midLon\<close>. When the loop goes on with the child, it does so
  with \<open>midLat = (top + bottom) / 2\<close> and \<open>midLon = (left + right) / 2\<close> of the new box.
\<close>

theorem quadrant_step:
  "(midLat q \<le> lat \<and> midLon q \<le> lon \<longrightarrow>
      nextQuad (Finite lat) (Finite lon) q = (''a'', q\<lparr>bottom := midLat q, left := midLon q\<rparr>))
   \<and> (midLat q \<le> lat \<and> lon < midLon q \<longrightarrow>
      nextQuad (Finite lat) (Finite lon) q = (''b'', q\<lparr>bottom := midLat q, right := midLon q\<rparr>))
   \<and> (lat < midLat q \<and> lon < midLon q \<longrightarrow>
      nextQuad (Finite lat) (Finite lon) q = (''c'', q\<lparr>top' := midLat q, right := midLon q\<rparr>))
   \<and> (lat < midLat q \<and> midLon q \<le> lon \<longrightarrow>
      nextQuad (Finite lat) (Finite lon) q = (''d'', q\<lparr>top' := midLat q, left := midLon q\<rparr>))
   \<and> (\<forall>label q' child.
        nextQuad (Finite lat) (Finite lon) q = (label, q') \<and> js_get cur label = Inr child
        \<and> continues E child \<longrightarrow>
        descend E geoData tzDataResponse pt originalLon (Finite lat) (Finite lon) cur q s
          = descend E geoData tzDataResponse pt originalLon (Finite lat) (Finite lon) child
              (q'\<lparr>midLat := (top' q' + bottom q') / 2, midLon := (left q' + right q') / 2\<rparr>) s)"
proof -
  have "descend E geoData tzDataResponse pt originalLon (Finite lat) (Finite lon) cur q s
          = descend E geoData tzDataResponse pt originalLon (Finite lat) (Finite lon) child
              (q'\<lparr>midLat := (top' q' + bottom q') / 2, midLon := (left q' + right q') / 2\<rparr>) s"
    if "nextQuad (Finite lat) (Finite lon) q = (label, q')" "js_get cur label = Inr child"
      "continues E child" for label q' child
    using descend_continue [OF that] by (simp add: nextDepth_def)
  then show ?thesis
    by (auto simp: nextQuad_def num_ge_def)
qed

theorem quadrant_step_witness:
  "nextQuad (Finite 37.3861) (Finite (- 122.0839)) quadData0
     = (''b'', \<lparr>top' = 89.9999, bottom = 0, left = - 179.9999, right = 0, midLat = 0, midLon = 0\<rparr>)
   \<and> nextQuad (Finite 35.6894) (Finite 139.6917) quadData0
     = (''a'', \<lparr>top' = 89.9999, bottom = 0, left = 0, right = 179.9999, midLat = 0, midLon = 0\<rparr>)
   \<and> descend exampleEnv (init_geoData exampleEnv (GeoUrl ''geo.dat'')) exampleIndex
        (Finite 139.6917, Finite 35.6894) (Finite 139.6917) (Finite 35.6894) (Finite 139.6917)
        exampleLookup quadData0 exampleState
     = descend exampleEnv (init_geoData exampleEnv (GeoUrl ''geo.dat'')) exampleIndex
        (Finite 139.6917, Finite 35.6894) (Finite 139.6917) (Finite 35.6894) (Finite 139.6917)
        (Obj [(''c'', Arr [Num (Finite 0)]),
              (''d'', Obj [(''pos'', Num (Finite 100)), (''len'', Num (Finite 50))])])
        \<lparr>top' = 89.9999, bottom = 0, left = 0, right = 179.9999, midLat = 44.99995, midLon = 89.99995\<rparr>
        exampleState"
proof -
  let ?g = "init_geoData exampleEnv (GeoUrl ''geo.dat'')"
  let ?child = "Obj [(''c'', Arr [Num (Finite 0)]),
                     (''d'', Obj [(''pos'', Num (Finite 100)), (''len'', Num (Finite 50))])]"
  have child: "js_get exampleLookup ''a'' = Inr ?child"
    by (simp add: js_get_def exampleLookup_def)
  have goes_on: "continues exampleEnv ?child"
    by (simp add: continues_def hasRange_def hasLength_def num_ge_def num_gt_def)
  note step = quadrant_step [where E = exampleEnv and cur = exampleLookup and q = quadData0
      and geoData = ?g and tzDataResponse = exampleIndex and s = exampleState
      and originalLon = "Finite 139.6917" and pt = "(Finite 139.6917, Finite 35.6894)"]
  from step [where lat = "35.6894" and lon = "139.6917"]
  have a: "nextQuad (Finite 35.6894) (Finite 139.6917) quadData0
      = (''a'', quadData0\<lparr>bottom := midLat quadData0, left := midLon quadData0\<rparr>)"
    by (simp add: quadData0_def)
  from step [where lat = "37.3861" and lon = "- 122.0839"]
  have b: "nextQuad (Finite 37.3861) (Finite (- 122.0839)) quadData0
      = (''b'', quadData0\<lparr>bottom := midLat quadData0, right := midLon quadData0\<rparr>)"
    by (simp add: quadData0_def)
  from step [where lat = "35.6894" and lon = "139.6917"] a child goes_on
  have "descend exampleEnv ?g exampleIndex (Finite 139.6917, Finite 35.6894) (Finite 139.6917)
          (Finite 35.6894) (Finite 139.6917) exampleLookup quadData0 exampleState
        = descend exampleEnv ?g exampleIndex (Finite 139.6917, Finite 35.6894) (Finite 139.6917)
          (Finite 35.6894) (Finite 139.6917) ?child
          ((quadData0\<lparr>bottom := midLat quadData0, left := midLon quadData0\<rparr>)
             \<lparr>midLat := (top' (quadData0\<lparr>bottom := midLat quadData0, left := midLon quadData0\<rparr>)
                          + bottom (quadData0\<lparr>bottom := midLat quadData0, left := midLon quadData0\<rparr>)) / 2,
              midLon := (left (quadData0\<lparr>bottom := midLat quadData0, left := midLon quadData0\<rparr>)
                          + right (quadData0\<lparr>bottom := midLat quadData0, left := midLon quadData0\<rparr>)) / 2\<rparr>)
          exampleState"
    by blast
  then show ?thesis
    using a b by (simp add: quadData0_def)
qed

section \<open>No precise match: the ocean fallback\<close>

text \<open>
  C4. Whenever the descent reaches an absent (or otherwise falsy) child, and
  whenever a geometry leaf is fetched and decoded and none of its features contains
  the point, \<^verbatim>\<open>find\<close> raises nothing: it returns the ocean fallback for the
  longitude as it was given, not as it was fixed; with \<^verbatim>\<open>getTimezoneAtSea\<close> as the
  specification describes it, these are the ids of the bands whose range contains
  that longitude.
\<close>

theorem no_match_is_ocean_fallback:
  assumes "inDomain 90 lat" and "lat \<noteq> Finite 90" and "inDomain 180 lon"
    and "tzData s = (Inr tzDataResponse, s1)"
    and "js_get tzDataResponse ''lookup'' = Inr lookup"
    and "child \<in> set (visited E (fixLat lat) (fixLon lon) lookup quadData0)"
  shows "(\<not> truthy child \<longrightarrow>
            findImpl E geoData tzData lat lon s = (Inr (getTimezoneAtSea (oceanZones E) lon), s1))
         \<and> (\<forall>p l bufSlice geoJson s2.
              isGeometryLeaf child p l
              \<and> geoData (Num (Finite p)) (Num (Finite (p + l - 1))) s1 = (Inr bufSlice, s2)
              \<and> decode E bufSlice = Inr geoJson
              \<and> (\<forall>f \<in> set (featuresOf geoJson). \<not> inside E (fixLon lon, fixLat lat) f) \<longrightarrow>
              findImpl E geoData tzData lat lon s = (Inr (getTimezoneAtSea (oceanZones E) lon), s2))
         \<and> (\<forall>x. lon = Finite x \<longrightarrow>
              getTimezoneAtSea (oceanZones E) lon
                = map (\<lambda>z. Str (tzid z))
                    (filter (\<lambda>z. longitudeLow z \<le> x \<and> x \<le> longitudeHigh z) (oceanZones E)))"
proof (intro conjI allI impI)
  assume "\<not> truthy child"
  then have "\<not> continues E child"
    and "analyze E geoData tzDataResponse (fixLon lon, fixLat lat) lon child s1
         = Some (Inr (getTimezoneAtSea (oceanZones E) lon), s1)"
    by (simp_all add: continues_def analyze_def)
  with findImpl_visited [where tzData = tzData and s = s and E = E and geoData = geoData, OF assms]
  show "findImpl E geoData tzData lat lon s = (Inr (getTimezoneAtSea (oceanZones E) lon), s1)"
    by simp
next
  fix p l bufSlice geoJson s2
  assume h: "isGeometryLeaf child p l
    \<and> geoData (Num (Finite p)) (Num (Finite (p + l - 1))) s1 = (Inr bufSlice, s2)
    \<and> decode E bufSlice = Inr geoJson
    \<and> (\<forall>f \<in> set (featuresOf geoJson). \<not> inside E (fixLon lon, fixLat lat) f)"
  then have "filter (\<lambda>f. inside E (fixLon lon, fixLat lat) f \<and> truthy (properties f)) (featuresOf geoJson) = []"
    by (simp add: filter_empty_conv)
  then have "timezonesContainingPoint E (fixLon lon, fixLat lat) geoJson = []"
    by (simp add: timezonesContainingPoint_filter)
  with h geometryLeaf_findImpl [where tzData = tzData and s = s and E = E and geoData = geoData
      and p = p and l = l, OF assms]
  show "findImpl E geoData tzData lat lon s = (Inr (getTimezoneAtSea (oceanZones E) lon), s2)"
    by simp
next
  fix x
  assume "lon = Finite x"
  then show "getTimezoneAtSea (oceanZones E) lon
      = map (\<lambda>z. Str (tzid z))
          (filter (\<lambda>z. longitudeLow z \<le> x \<and> x \<le> longitudeHigh z) (oceanZones E))"
    by (simp add: getTimezoneAtSea_def num_le_def not_less)
qed

theorem no_match_is_ocean_fallback_witness:
  "inDomain 90 (Finite (- 12)) \<and> Finite (- 12) \<noteq> Finite 90 \<and> inDomain 180 (Finite 180)
   \<and> inDomain 90 (Finite 35.6894) \<and> inDomain 180 (Finite 139.6917)
   \<and> init_tzData exampleEnv (TzUrl ''index.json'') exampleState
       = (Inr exampleIndex, \<lparr>tzDataPromise = Some (Inr exampleIndex), calls = [IndexFetch ''index.json'']\<rparr>)
   \<and> js_get exampleIndex ''lookup'' = Inr exampleLookup
   \<and> Undefined \<in> set (visited exampleEnv (fixLat (Finite (- 12))) (fixLon (Finite 180)) exampleLookup quadData0)
   \<and> \<not> truthy Undefined
   \<and> find' exampleInstance (Finite (- 12)) (Finite 180) exampleState
       = (Inr [Str ''Etc/GMT-12''],
          \<lparr>tzDataPromise = Some (Inr exampleIndex), calls = [IndexFetch ''index.json'']\<rparr>)
   \<and> isGeometryLeaf (Obj [(''pos'', Num (Finite 100)), (''len'', Num (Finite 50))]) 100 50
   \<and> find' exampleInstance (Finite 35.6894) (Finite 139.6917) exampleState
       = (Inr [Str ''Etc/GMT-9''],
          \<lparr>tzDataPromise = Some (Inr exampleIndex),
             calls = [IndexFetch ''index.json'', RangeFetch ''geo.dat'' (Num (Finite 100)) (Num (Finite 149))]\<rparr>)"
proof -
  let ?g = "init_geoData exampleEnv (GeoUrl ''geo.dat'')"
  let ?t = "init_tzData exampleEnv (TzUrl ''index.json'')"
  let ?s1 = "\<lparr>tzDataPromise = Some (Inr exampleIndex), calls = [IndexFetch ''index.json'']\<rparr>"
  let ?leaf = "Obj [(''pos'', Num (Finite 100)), (''len'', Num (Finite 50))]"
  let ?tokyo = "\<lparr>geometry = Bool False, properties = Obj [(''tzid'', Str ''Asia/Tokyo'')]\<rparr>"
  have inst: "find' exampleInstance = findImpl exampleEnv ?g ?t"
    by (simp add: exampleInstance_def init_def)
  have dom: "inDomain 90 (Finite (- 12))" "Finite (- 12) \<noteq> Finite 90" "inDomain 180 (Finite 180)"
    "inDomain 90 (Finite 35.6894)" "Finite 35.6894 \<noteq> Finite 90" "inDomain 180 (Finite 139.6917)"
    by (simp_all add: inDomain_def)
  have tz: "?t exampleState = (Inr exampleIndex, ?s1)"
    by (simp add: init_tzData_def exampleState_def init_def exampleEnv_def Let_def)
  have lookup: "js_get exampleIndex ''lookup'' = Inr exampleLookup"
    by (simp add: js_get_def exampleIndex_def)
  have sea: "Undefined \<in> set (visited exampleEnv (fixLat (Finite (- 12))) (fixLon (Finite 180)) exampleLookup quadData0)"
    by (simp add: run_simps example_simps)
  have land: "?leaf \<in> set (visited exampleEnv (fixLat (Finite 35.6894)) (fixLon (Finite 139.6917)) exampleLookup quadData0)"
    by (simp add: run_simps example_simps)
  have leaf: "isGeometryLeaf ?leaf 100 50"
    by (simp add: isGeometryLeaf_def)
  have fetch: "?g (Num (Finite 100)) (Num (Finite (100 + 50 - 1))) ?s1
      = (Inr [], ?s1\<lparr>calls := calls ?s1 @ [RangeFetch ''geo.dat'' (Num (Finite 100)) (Num (Finite 149))]\<rparr>)"
    by (simp add: init_geoData_def exampleEnv_def)
  have dec: "decode exampleEnv [] = Inr (Feature ?tokyo)"
    by (simp add: exampleEnv_def)
  have none: "\<forall>f \<in> set (featuresOf (Feature ?tokyo)).
      \<not> inside exampleEnv (fixLon (Finite 139.6917), fixLat (Finite 35.6894)) f"
    by (simp add: featuresOf_def exampleEnv_def)
  note ocean = no_match_is_ocean_fallback [where E = exampleEnv and geoData = ?g and tzData = ?t
      and s = exampleState and ?s1.0 = ?s1 and tzDataResponse = exampleIndex and lookup = exampleLookup]
  have a: "findImpl exampleEnv ?g ?t (Finite (- 12)) (Finite 180) exampleState
      = (Inr (getTimezoneAtSea (oceanZones exampleEnv) (Finite 180)), ?s1)"
    using ocean [OF dom(1-3) tz lookup sea] by simp
  have b: "findImpl exampleEnv ?g ?t (Finite 35.6894) (Finite 139.6917) exampleState
      = (Inr (getTimezoneAtSea (oceanZones exampleEnv) (Finite 139.6917)),
         ?s1\<lparr>calls := calls ?s1 @ [RangeFetch ''geo.dat'' (Num (Finite 100)) (Num (Finite 149))]\<rparr>)"
    using ocean [OF dom(4-6) tz lookup land] leaf fetch dec none by blast
  have bands: "getTimezoneAtSea (oceanZones exampleEnv) (Finite 180) = [Str ''Etc/GMT-12'']"
    "getTimezoneAtSea (oceanZones exampleEnv) (Finite 139.6917) = [Str ''Etc/GMT-9'']"
    by (simp_all add: getTimezoneAtSea_def exampleEnv_def exampleZones_def num_le_def)
  show ?thesis
    unfolding inst a b bands using dom tz lookup sea leaf by simp
qed

section \<open>The geometry leaf\<close>

text \<open>
  C9. For a geometry leaf \<open>{pos, len}\<close> reached by the descent, the geometry
  provider is called exactly once, with the inclusive byte range from \<open>pos\<close> to
  \<open>pos + len - 1\<close>: the state \<^verbatim>\<open>find\<close> returns is the state that one call leaves,
  and on a bound instance the requests for geometry grow by that one request.
\<close>

theorem geometry_leaf_one_range_request:
  assumes "inDomain 90 lat" and "lat \<noteq> Finite 90" and "inDomain 180 lon"
    and "tzData s = (Inr tzDataResponse, s1)"
    and "js_get tzDataResponse ''lookup'' = Inr lookup"
    and "child \<in> set (visited E (fixLat lat) (fixLon lon) lookup quadData0)"
    and "isGeometryLeaf child pos len"
  shows "snd (findImpl E geoData tzData lat lon s)
           = snd (geoData (Num (Finite pos)) (Num (Finite (pos + len - 1))) s1)
         \<and> (\<forall>geoDataSource tzDataSource.
              geoData = init_geoData E geoDataSource \<and> tzData = init_tzData E tzDataSource \<longrightarrow>
              rangeRequests (calls (snd (find' (fst (init E geoDataSource tzDataSource)) lat lon s)))
                = rangeRequests (calls s) @ [(Num (Finite pos), Num (Finite (pos + len - 1)))])"
proof -
  have one: "snd (findImpl E geoData tzData lat lon s)
      = snd (geoData (Num (Finite pos)) (Num (Finite (pos + len - 1))) s1)"
    using geometryLeaf_findImpl [where tzData = tzData and s = s and E = E and geoData = geoData
        and p = pos and l = len, OF assms]
    by (simp split: prod.splits sum.splits)
  have "rangeRequests (calls (snd (find' (fst (init E gsrc tsrc)) lat lon s)))
      = rangeRequests (calls s) @ [(Num (Finite pos), Num (Finite (pos + len - 1)))]"
    if "geoData = init_geoData E gsrc" "tzData = init_tzData E tsrc" for gsrc tsrc
  proof -
    have "rangeRequests (calls s1) = rangeRequests (calls s)"
      using init_tzData_rangeRequests [of E tsrc s] assms(4) that by simp
    with one that show ?thesis
      by (simp add: init_def init_geoData_rangeRequests)
  qed
  with one show ?thesis by blast
qed

theorem geometry_leaf_one_range_request_witness:
  "inDomain 90 (Finite 37.3861) \<and> Finite 37.3861 \<noteq> Finite 90 \<and> inDomain 180 (Finite (- 122.0839))
   \<and> init_tzData exampleEnv (TzUrl ''index.json'') exampleState
       = (Inr exampleIndex, \<lparr>tzDataPromise = Some (Inr exampleIndex), calls = [IndexFetch ''index.json'']\<rparr>)
   \<and> js_get exampleIndex ''lookup'' = Inr exampleLookup
   \<and> Obj [(''pos'', Num (Finite 0)), (''len'', Num (Finite 100))]
       \<in> set (visited exampleEnv (fixLat (Finite 37.3861)) (fixLon (Finite (- 122.0839))) exampleLookup quadData0)
   \<and> isGeometryLeaf (Obj [(''pos'', Num (Finite 0)), (''len'', Num (Finite 100))]) 0 100
   \<and> rangeRequests (calls (snd (find' exampleInstance (Finite 37.3861) (Finite (- 122.0839)) exampleState)))
       = [(Num (Finite 0), Num (Finite 99))]"
proof -
  let ?g = "init_geoData exampleEnv (GeoUrl ''geo.dat'')"
  let ?t = "init_tzData exampleEnv (TzUrl ''index.json'')"
  let ?s1 = "\<lparr>tzDataPromise = Some (Inr exampleIndex), calls = [IndexFetch ''index.json'']\<rparr>"
  let ?leaf = "Obj [(''pos'', Num (Finite 0)), (''len'', Num (Finite 100))]"
  have dom: "inDomain 90 (Finite 37.3861)" "Finite 37.3861 \<noteq> Finite 90" "inDomain 180 (Finite (- 122.0839))"
    by (simp_all add: inDomain_def)
  have tz: "?t exampleState = (Inr exampleIndex, ?s1)"
    by (simp add: init_tzData_def exampleState_def init_def exampleEnv_def Let_def)
  have lookup: "js_get exampleIndex ''lookup'' = Inr exampleLookup"
    by (simp add: js_get_def exampleIndex_def)
  have land: "?leaf \<in> set (visited exampleEnv (fixLat (Finite 37.3861)) (fixLon (Finite (- 122.0839))) exampleLookup quadData0)"
    by (simp add: run_simps example_simps)
  have leaf: "isGeometryLeaf ?leaf 0 100"
    by (simp add: isGeometryLeaf_def)
  have "rangeRequests (calls (snd (find' (fst (init exampleEnv (GeoUrl ''geo.dat'') (TzUrl ''index.json'')))
            (Finite 37.3861) (Finite (- 122.0839)) exampleState)))
       = rangeRequests (calls exampleState) @ [(Num (Finite 0), Num (Finite (0 + 100 - 1)))]"
    using geometry_leaf_one_range_request [where E = exampleEnv and geoData = ?g and tzData = ?t
        and s = exampleState and ?s1.0 = ?s1 and tzDataResponse = exampleIndex and lookup = exampleLookup
        and pos = 0 and len = 100, OF dom tz lookup land leaf]
    by blast
  then have "rangeRequests (calls (snd (find' exampleInstance (Finite 37.3861) (Finite (- 122.0839)) exampleState)))
       = [(Num (Finite 0), Num (Finite 99))]"
    by (simp add: exampleInstance_def exampleState_def init_def)
  with dom tz lookup land leaf show ?thesis by simp
qed




section \<open>Malformed nodes\<close>

text \<open>
  C5, as the code has it. \<^verbatim>\<open>find\<close> fails with the error ``Unexpected data
  type'' exactly when the descent visits a node that is \<^verbatim>\<open>true\<close> or a number
  other than zero and \<^verbatim>\<open>NaN\<close> (a truthy value that is no object and has no
  positive \<open>length\<close>); on a string that is not empty it fails with a
  \<^verbatim>\<open>TypeError\<close>. An array without elements is not refused: the tests fall
  through on it and the loop goes on with it as with an inner node. There is no
  depth ceiling: an index of any depth \<open>n\<close> is descended to its leaf.
\<close>

theorem unexpected_data_type:
  "(inDomain 90 lat \<and> lat \<noteq> Finite 90 \<and> inDomain 180 lon
      \<and> tzData s = (Inr tzDataResponse, s1)
      \<and> js_get tzDataResponse ''lookup'' = Inr lookup \<longrightarrow>
      (fst (findImpl E geoData tzData lat lon s) = Inl UnexpectedDataType
         \<longleftrightarrow> (\<exists>child \<in> set (visited E (fixLat lat) (fixLon lon) lookup quadData0).
                child = Bool True \<or> (\<exists>n. child = Num n \<and> n \<noteq> NaN \<and> n \<noteq> Finite 0)))
      \<and> (\<forall>t. t \<noteq> [] \<and> Str t \<in> set (visited E (fixLat lat) (fixLon lon) lookup quadData0) \<longrightarrow>
            findImpl E geoData tzData lat lon s = (Inl TypeError, s1)))
   \<and> continues E (Arr [])
   \<and> (\<forall>n. tzData s = (Inr (deepIndex n), s1) \<longrightarrow>
        findImpl E geoData tzData (Finite 89.9999) (Finite 179.9999) s = (Inr [Str ''Etc/UTC''], s1)
        \<and> length (visited E (fixLat (Finite 89.9999)) (fixLon (Finite 179.9999)) (chain n) quadData0) = Suc n)"
proof (intro conjI allI impI)
  assume h: "inDomain 90 lat \<and> lat \<noteq> Finite 90 \<and> inDomain 180 lon
      \<and> tzData s = (Inr tzDataResponse, s1)
      \<and> js_get tzDataResponse ''lookup'' = Inr lookup"
  then have run: "findImpl E geoData tzData lat lon s
      = descend E geoData tzDataResponse (fixLon lon, fixLat lat) lon (fixLat lat) (fixLon lon) lookup quadData0 s1"
    by (simp add: findImpl_descendFrom descendFrom_def)
  show "fst (findImpl E geoData tzData lat lon s) = Inl UnexpectedDataType
         \<longleftrightarrow> (\<exists>child \<in> set (visited E (fixLat lat) (fixLon lon) lookup quadData0).
                child = Bool True \<or> (\<exists>n. child = Num n \<and> n \<noteq> NaN \<and> n \<noteq> Finite 0))"
    unfolding run descend_unexpected unexpectedNode_iff ..
next
  fix t
  assume h: "inDomain 90 lat \<and> lat \<noteq> Finite 90 \<and> inDomain 180 lon
      \<and> tzData s = (Inr tzDataResponse, s1)
      \<and> js_get tzDataResponse ''lookup'' = Inr lookup"
    and str: "t \<noteq> [] \<and> Str t \<in> set (visited E (fixLat lat) (fixLon lon) lookup quadData0)"
  have stop: "\<not> continues E (Str t)"
    by (simp add: continues_def)
  from h str findImpl_visited [where tzData = tzData and s = s and E = E and geoData = geoData
      and lat = lat and lon = lon and resp = tzDataResponse and ?s1.0 = s1 and lookup = lookup
      and child = "Str t", OF _ _ _ _ _ _ stop]
    string_analyze [of t E geoData tzDataResponse "(fixLon lon, fixLat lat)" lon s1]
  show "findImpl E geoData tzData lat lon s = (Inl TypeError, s1)"
    by simp
next
  show "continues E (Arr [])"
    by (simp add: continues_def hasRange_def hasLength_def num_ge_def num_gt_def)
next
  fix n
  assume "tzData s = (Inr (deepIndex n), s1)"
  then show "findImpl E geoData tzData (Finite 89.9999) (Finite 179.9999) s = (Inr [Str ''Etc/UTC''], s1)"
    by (rule deep_findImpl(1))
next
  fix n
  assume "tzData s = (Inr (deepIndex n), s1)"
  then show "length (visited E (fixLat (Finite 89.9999)) (fixLon (Finite 179.9999)) (chain n) quadData0) = Suc n"
    by (rule deep_findImpl(2))
qed

theorem unexpected_data_type_witness:
  "inDomain 90 (Finite 10) \<and> Finite 10 \<noteq> Finite 90 \<and> inDomain 180 (Finite (- 10))
   \<and> init_tzData malformedEnv (TzUrl ''index.json'') exampleState
       = (Inr malformedIndex, \<lparr>tzDataPromise = Some (Inr malformedIndex), calls = [IndexFetch ''index.json'']\<rparr>)
   \<and> js_get malformedIndex ''lookup'' = Inr malformedLookup
   \<and> Bool True \<in> set (visited malformedEnv (fixLat (Finite 10)) (fixLon (Finite (- 10))) malformedLookup quadData0)
   \<and> fst (find' malformedInstance (Finite 10) (Finite (- 10)) exampleState) = Inl UnexpectedDataType
   \<and> Str ''x'' \<in> set (visited malformedEnv (fixLat (Finite (- 10))) (fixLon (Finite 10)) malformedLookup quadData0)
   \<and> fst (find' malformedInstance (Finite (- 10)) (Finite 10) exampleState) = Inl TypeError
   \<and> init_tzData exampleEnv (TzFn (Inr (deepIndex 7))) exampleState
       = (Inr (deepIndex 7), \<lparr>tzDataPromise = None, calls = [IndexCall]\<rparr>)
   \<and> fst (find' (fst (init exampleEnv (GeoUrl ''geo.dat'') (TzFn (Inr (deepIndex 7)))))
            (Finite 89.9999) (Finite 179.9999) exampleState) = Inr [Str ''Etc/UTC'']"
proof -
  let ?g = "init_geoData malformedEnv (GeoUrl ''geo.dat'')"
  let ?t = "init_tzData malformedEnv (TzUrl ''index.json'')"
  let ?s1 = "\<lparr>tzDataPromise = Some (Inr malformedIndex), calls = [IndexFetch ''index.json'']\<rparr>"
  let ?g' = "init_geoData exampleEnv (GeoUrl ''geo.dat'')"
  let ?t' = "init_tzData exampleEnv (TzFn (Inr (deepIndex 7)))"
  let ?s1' = "\<lparr>tzDataPromise = None, calls = [IndexCall]\<rparr>"
  have dom: "inDomain 90 (Finite 10)" "Finite 10 \<noteq> Finite 90" "inDomain 180 (Finite (- 10))"
    "inDomain 90 (Finite (- 10))" "Finite (- 10) \<noteq> Finite 90" "inDomain 180 (Finite 10)"
    by (simp_all add: inDomain_def)
  have tz: "?t exampleState = (Inr malformedIndex, ?s1)"
    by (simp add: init_tzData_def exampleState_def init_def malformedEnv_def exampleEnv_def Let_def)
  have lookup: "js_get malformedIndex ''lookup'' = Inr malformedLookup"
    by (simp add: js_get_def malformedIndex_def)
  have seen: "Bool True \<in> set (visited malformedEnv (fixLat (Finite 10)) (fixLon (Finite (- 10))) malformedLookup quadData0)"
    by (simp add: run_simps example_simps)
  have seen': "Str ''x'' \<in> set (visited malformedEnv (fixLat (Finite (- 10))) (fixLon (Finite 10)) malformedLookup quadData0)"
    by (simp add: run_simps example_simps)
  have tz': "?t' exampleState = (Inr (deepIndex 7), ?s1')"
    by (simp add: init_tzData_def exampleState_def init_def)
  have a: "fst (findImpl malformedEnv ?g ?t (Finite 10) (Finite (- 10)) exampleState) = Inl UnexpectedDataType"
    using unexpected_data_type [where E = malformedEnv and geoData = ?g and tzData = ?t
      and s = exampleState and ?s1.0 = ?s1 and tzDataResponse = malformedIndex and lookup = malformedLookup
      and lat = "Finite 10" and lon = "Finite (- 10)"] dom tz lookup seen by blast
  have "findImpl malformedEnv ?g ?t (Finite (- 10)) (Finite 10) exampleState = (Inl TypeError, ?s1)"
    using unexpected_data_type [where E = malformedEnv and geoData = ?g and tzData = ?t
      and s = exampleState and ?s1.0 = ?s1 and tzDataResponse = malformedIndex and lookup = malformedLookup
      and lat = "Finite (- 10)" and lon = "Finite 10"] dom tz lookup seen' by blast
  then have b: "fst (findImpl malformedEnv ?g ?t (Finite (- 10)) (Finite 10) exampleState) = Inl TypeError"
    by simp
  have "findImpl exampleEnv ?g' ?t' (Finite 89.9999) (Finite 179.9999) exampleState
      = (Inr [Str ''Etc/UTC''], ?s1')"
    using unexpected_data_type [where E = exampleEnv and geoData = ?g' and tzData = ?t'
      and s = exampleState and ?s1.0 = ?s1'] tz' by blast
  then have c: "fst (findImpl exampleEnv ?g' ?t' (Finite 89.9999) (Finite 179.9999) exampleState)
      = Inr [Str ''Etc/UTC'']"
    by simp
  have inst: "find' malformedInstance = findImpl malformedEnv ?g ?t"
    "find' (fst (init exampleEnv (GeoUrl ''geo.dat'') (TzFn (Inr (deepIndex 7))))) = findImpl exampleEnv ?g' ?t'"
    by (simp_all add: malformedInstance_def init_def)
  show ?thesis
    unfolding inst a b c using dom tz lookup seen seen' tz' by simp
qed

text \<open>
  C5 as the specification states it fails on an empty array: it is none of the four
  kinds of node, the descent visits it, and \<^verbatim>\<open>find\<close> returns the ocean fallback
  instead of failing.
\<close>

theorem empty_array_node_counterexample:
  "specKind (Arr []) = Malformed
   \<and> js_get malformedIndex ''lookup'' = Inr malformedLookup
   \<and> visited malformedEnv (fixLat (Finite 10)) (fixLon (Finite 10)) malformedLookup quadData0
       = [Arr [], Undefined]
   \<and> fst (find' malformedInstance (Finite 10) (Finite 10) exampleState) = Inr [Str ''Etc/GMT-1'']"
  by (simp add: run_simps example_simps)

section \<open>The index is asked for once, or once per call\<close>

text \<open>
  C6, as the code has it. On an instance made by \<^verbatim>\<open>init\<close> with a URL for the
  index, any run of calls of \<^verbatim>\<open>find\<close> fetches the index at most once: once if
  some call gets past validation and the pole, never otherwise; the result is kept
  in \<^verbatim>\<open>tzDataPromise\<close>. With a function for the index there is no memo: the
  function is called once by every call of \<^verbatim>\<open>find\<close> that gets past validation
  and the pole.
\<close>

theorem index_requests_per_instance:
  "indexRequests (calls (snd (finds (fst (init E geoDataSource (TzUrl url))) ps
       (snd (init E geoDataSource (TzUrl url))))))
     = (if filter reachesIndex ps = [] then 0 else 1)
   \<and> indexRequests (calls (snd (finds (fst (init E geoDataSource (TzUrl url))) ps
       (snd (init E geoDataSource (TzUrl url)))))) \<le> 1
   \<and> indexRequests (calls (snd (finds (fst (init E geoDataSource (TzFn f))) ps
       (snd (init E geoDataSource (TzFn f))))))
     = length (filter reachesIndex ps)"
  using finds_url_count [of E geoDataSource url ps]
    finds_fn_count [of E geoDataSource f ps "snd (init E geoDataSource (TzFn f))"]
  by (simp add: init_def)

theorem index_requests_per_instance_witness:
  "indexRequests (calls (snd (finds exampleInstance
       [(Finite 37.3861, Finite (- 122.0839)), (Finite 91, Finite 0), (Finite 35.6894, Finite 139.6917)]
       exampleState))) = 1
   \<and> filter reachesIndex [(Finite 37.3861, Finite (- 122.0839)), (Finite 91, Finite 0), (Finite 35.6894, Finite 139.6917)]
       = [(Finite 37.3861, Finite (- 122.0839)), (Finite 35.6894, Finite 139.6917)]
   \<and> indexRequests (calls (snd (finds (fst (init exampleEnv (GeoUrl ''geo.dat'') (TzFn (Inr exampleIndex))))
       [(Finite 37.3861, Finite (- 122.0839)), (Finite 91, Finite 0), (Finite 35.6894, Finite 139.6917)]
       (snd (init exampleEnv (GeoUrl ''geo.dat'') (TzFn (Inr exampleIndex))))))) = 2"
proof -
  let ?ps = "[(Finite 37.3861, Finite (- 122.0839)), (Finite 91, Finite 0), (Finite 35.6894, Finite 139.6917)]"
  have reach: "filter reachesIndex ?ps = [(Finite 37.3861, Finite (- 122.0839)), (Finite 35.6894, Finite 139.6917)]"
    by (simp add: reachesIndex_def inDomain_def)
  from index_requests_per_instance [of exampleEnv "GeoUrl ''geo.dat''" "''index.json''" ?ps "Inr exampleIndex"]
  show ?thesis
    unfolding reach exampleInstance_def exampleState_def by simp
qed

text \<open>
  C6 as the specification states it fails for the function form: two calls of
  \<^verbatim>\<open>find\<close> on one instance call the index function twice.
\<close>

theorem function_source_counterexample:
  "indexRequests (calls (snd (finds (fst (init exampleEnv (GeoUrl ''geo.dat'') (TzFn (Inr exampleIndex))))
       [(Finite 37.3861, Finite (- 122.0839)), (Finite 37.3861, Finite (- 122.0839))]
       (snd (init exampleEnv (GeoUrl ''geo.dat'') (TzFn (Inr exampleIndex))))))) = 2
   \<and> calls (snd (finds (fst (init exampleEnv (GeoUrl ''geo.dat'') (TzFn (Inr exampleIndex))))
       [(Finite 37.3861, Finite (- 122.0839)), (Finite 37.3861, Finite (- 122.0839))]
       (snd (init exampleEnv (GeoUrl ''geo.dat'') (TzFn (Inr exampleIndex))))))
     = [IndexCall, RangeFetch ''geo.dat'' (Num (Finite 0)) (Num (Finite 99)),
        IndexCall, RangeFetch ''geo.dat'' (Num (Finite 0)) (Num (Finite 99))]"
  by (simp add: run_simps example_simps)

section \<open>When a valid lookup returns timezones\<close>




end
